theory Spec2Isabelle
  imports Main "HOL-Library.Word"
begin

unbundle bit_operations_syntax

section \<open>Core types (ehms\_types.h)\<close>

type_synonym u8 = "8 word"
type_synonym u16 = "16 word"
type_synonym u32 = "32 word"

text \<open>
  A C \<open>float\<close> is its IEEE-754 single-precision bit pattern. The comparisons of the
  source (\<open>>=\<close>, \<open><=\<close>, \<open><\<close>, \<open>>\<close>) are decoded from the pattern: a NaN compares
  false with everything, \<open>-0\<close> equals \<open>+0\<close>, and every other pattern is ordered by its
  value, here scaled by \<open>2 ^ 149\<close> so that it is an integer (an infinity decodes to
  \<open>2 ^ 128\<close>, above every finite value).
\<close>

type_synonym float32 = "32 word"

definition f32_exp :: "float32 \<Rightarrow> nat" where
  "f32_exp w = unat (drop_bit 23 w AND 0xFF)"

definition f32_mant :: "float32 \<Rightarrow> int" where
  "f32_mant w = uint (w AND 0x7FFFFF)"

definition f32_is_nan :: "float32 \<Rightarrow> bool" where
  "f32_is_nan w \<longleftrightarrow> f32_exp w = 255 \<and> f32_mant w \<noteq> 0"

definition f32_scaled :: "float32 \<Rightarrow> int" where
  "f32_scaled w =
     (let mag = (if f32_exp w = 0 then f32_mant w
                 else (2 ^ 23 + f32_mant w) * 2 ^ (f32_exp w - 1))
      in if bit w 31 then - mag else mag)"

definition f32_ge :: "float32 \<Rightarrow> float32 \<Rightarrow> bool" where
  "f32_ge a b \<longleftrightarrow> \<not> f32_is_nan a \<and> \<not> f32_is_nan b \<and> f32_scaled b \<le> f32_scaled a"

definition f32_le :: "float32 \<Rightarrow> float32 \<Rightarrow> bool" where
  "f32_le a b \<longleftrightarrow> \<not> f32_is_nan a \<and> \<not> f32_is_nan b \<and> f32_scaled a \<le> f32_scaled b"

definition f32_lt :: "float32 \<Rightarrow> float32 \<Rightarrow> bool" where
  "f32_lt a b \<longleftrightarrow> \<not> f32_is_nan a \<and> \<not> f32_is_nan b \<and> f32_scaled a < f32_scaled b"

definition f32_gt :: "float32 \<Rightarrow> float32 \<Rightarrow> bool" where
  "f32_gt a b \<longleftrightarrow> \<not> f32_is_nan a \<and> \<not> f32_is_nan b \<and> f32_scaled b < f32_scaled a"

definition EHMS_MAX_ENGINES :: nat where "EHMS_MAX_ENGINES = 4"
definition EHMS_ENGINE_COUNT :: nat where "EHMS_ENGINE_COUNT = 4"
definition EHMS_MAX_ACTIVE_ALERTS :: nat where "EHMS_MAX_ACTIVE_ALERTS = 32"
definition EHMS_ARINC429_BUS_COUNT :: nat where "EHMS_ARINC429_BUS_COUNT = 4"
definition EHMS_PARAM_COUNT :: nat where "EHMS_PARAM_COUNT = 48"

text \<open>\<open>ehms_engine_id_t\<close> and \<open>ehms_param_id_t\<close> index arrays: they are naturals.\<close>

type_synonym ehms_engine_id_t = nat
type_synonym ehms_param_id_t = nat

definition EHMS_PARAM_N1 :: ehms_param_id_t where "EHMS_PARAM_N1 = 0"
definition EHMS_PARAM_N2 :: ehms_param_id_t where "EHMS_PARAM_N2 = 1"
definition EHMS_PARAM_EGT :: ehms_param_id_t where "EHMS_PARAM_EGT = 2"
definition EHMS_PARAM_FF :: ehms_param_id_t where "EHMS_PARAM_FF = 3"
definition EHMS_PARAM_OIL_TEMP :: ehms_param_id_t where "EHMS_PARAM_OIL_TEMP = 4"
definition EHMS_PARAM_OIL_PRESS :: ehms_param_id_t where "EHMS_PARAM_OIL_PRESS = 5"
definition EHMS_PARAM_OIL_QTY :: ehms_param_id_t where "EHMS_PARAM_OIL_QTY = 6"
definition EHMS_PARAM_VIB_FAN :: ehms_param_id_t where "EHMS_PARAM_VIB_FAN = 7"
definition EHMS_PARAM_VIB_CORE :: ehms_param_id_t where "EHMS_PARAM_VIB_CORE = 8"
definition EHMS_PARAM_EPR :: ehms_param_id_t where "EHMS_PARAM_EPR = 9"

datatype ehms_system_state_t =
  EHMS_STATE_OFF | EHMS_STATE_INIT | EHMS_STATE_PBIT | EHMS_STATE_NORMAL
| EHMS_STATE_DEGRADED | EHMS_STATE_MAINTENANCE | EHMS_STATE_FAULT

datatype ehms_alert_level_t =
  EHMS_ALERT_NONE | EHMS_ALERT_STATUS | EHMS_ALERT_ADVISORY
| EHMS_ALERT_CAUTION | EHMS_ALERT_WARNING

text \<open>The enumerator values, for the source's \<open>>=\<close> and \<open>>\<close> on levels.\<close>

fun level_val :: "ehms_alert_level_t \<Rightarrow> nat" where
  "level_val EHMS_ALERT_NONE = 0"
| "level_val EHMS_ALERT_STATUS = 1"
| "level_val EHMS_ALERT_ADVISORY = 2"
| "level_val EHMS_ALERT_CAUTION = 3"
| "level_val EHMS_ALERT_WARNING = 4"

datatype ehms_param_status_t =
  EHMS_PARAM_VALID | EHMS_PARAM_STALE | EHMS_PARAM_FAILED | EHMS_PARAM_NCD
| EHMS_PARAM_TEST

datatype ehms_health_status_t =
  EHMS_HEALTH_NORMAL | EHMS_HEALTH_MONITOR | EHMS_HEALTH_CAUTION
| EHMS_HEALTH_ACTION_REQ | EHMS_HEALTH_CRITICAL

datatype ehms_result_t =
  EHMS_OK | EHMS_ERROR | EHMS_ERROR_PARAM | EHMS_ERROR_RANGE | EHMS_ERROR_TIMEOUT
| EHMS_ERROR_BUSY | EHMS_ERROR_MEMORY | EHMS_ERROR_HARDWARE | EHMS_ERROR_CONFIG
| EHMS_ERROR_NOT_INIT | EHMS_ERROR_CRC

record ehms_timestamp_t =
  year :: u16
  month :: u8
  day :: u8
  hour :: u8
  minute :: u8
  second :: u8
  millisecond :: u16

record ehms_parameter_t =
  p_param_id :: ehms_param_id_t
  p_status :: ehms_param_status_t
  p_raw_value :: u32
  p_eng_value :: float32
  p_timestamp :: ehms_timestamp_t
  p_source_bus :: u8

record ehms_engine_snapshot_t =
  engine_id :: ehms_engine_id_t
  sample_time :: ehms_timestamp_t
  flight_phase :: u32
  parameters :: "ehms_parameter_t list"
  health_status :: ehms_health_status_t
  crc32 :: u32

record ehms_alert_t =
  a_alert_id :: u32
  a_level :: ehms_alert_level_t
  a_engine_id :: ehms_engine_id_t
  a_param_id :: ehms_param_id_t
  a_onset_time :: ehms_timestamp_t
  a_clear_time :: ehms_timestamp_t
  a_is_active :: bool
  a_is_latched :: bool
  a_is_inhibited :: bool
  a_message :: string
  a_ecam_code :: u16

text \<open>The all-zero values that \<open>memset\<close> leaves behind.\<close>

definition zero_timestamp :: ehms_timestamp_t where
  "zero_timestamp =
     \<lparr>year = 0, month = 0, day = 0, hour = 0, minute = 0, second = 0, millisecond = 0\<rparr>"

definition zero_parameter :: ehms_parameter_t where
  "zero_parameter =
     \<lparr>p_param_id = 0, p_status = EHMS_PARAM_VALID, p_raw_value = 0, p_eng_value = 0,
      p_timestamp = zero_timestamp, p_source_bus = 0\<rparr>"

definition zero_snapshot :: ehms_engine_snapshot_t where
  "zero_snapshot =
     \<lparr>engine_id = 0, sample_time = zero_timestamp, flight_phase = 0,
      parameters = replicate EHMS_PARAM_COUNT zero_parameter,
      health_status = EHMS_HEALTH_NORMAL, crc32 = 0\<rparr>"

definition zero_alert :: ehms_alert_t where
  "zero_alert =
     \<lparr>a_alert_id = 0, a_level = EHMS_ALERT_NONE, a_engine_id = 0, a_param_id = 0,
      a_onset_time = zero_timestamp, a_clear_time = zero_timestamp,
      a_is_active = False, a_is_latched = False, a_is_inhibited = False,
      a_message = [], a_ecam_code = 0\<rparr>"

section \<open>Alert manager (alert\_manager.c)\<close>

definition ALERT_MAX_QUEUE_SIZE :: nat where "ALERT_MAX_QUEUE_SIZE = 64"
definition ALERT_DEBOUNCE_CYCLES :: nat where "ALERT_DEBOUNCE_CYCLES = 3"
definition ALERT_HYSTERESIS_PERCENT :: float32 where "ALERT_HYSTERESIS_PERCENT = 0x40000000"

text \<open>
  The three constants above are defined by the source and used nowhere in it
  (\<open>0x40000000\<close> is 2.0f).
\<close>

record alert_state_t =
  alerts :: "ehms_alert_t list"
  active_count :: u32
  next_alert_id :: u32
  master_caution :: bool
  master_warning :: bool
  highest_level :: ehms_alert_level_t

record alert_threshold_t =
  t_param_id :: ehms_param_id_t
  t_level :: ehms_alert_level_t
  t_threshold :: float32
  t_high_limit :: bool
  t_ecam_code :: u16
  t_message :: string

definition mk_threshold ::
  "ehms_param_id_t \<Rightarrow> ehms_alert_level_t \<Rightarrow> float32 \<Rightarrow> bool \<Rightarrow> u16 \<Rightarrow> string
     \<Rightarrow> alert_threshold_t" where
  "mk_threshold p l th h c m =
     \<lparr>t_param_id = p, t_level = l, t_threshold = th, t_high_limit = h,
      t_ecam_code = c, t_message = m\<rparr>"

text \<open>
  The threshold table. The float literals are written as their bit patterns:
  950.0f, 1000.0f, 25.0f, 15.0f, 140.0f, 155.0f, 3.0f, 5.0f, 4.0f, 6.0f, 104.0f, 105.0f
  (lemma \<open>s_thresholds_values\<close> below decodes them).
\<close>

definition s_thresholds :: "alert_threshold_t list" where
  "s_thresholds =
     [mk_threshold EHMS_PARAM_EGT EHMS_ALERT_CAUTION 0x446D8000 True 0x1001 ''ENG %d EGT HIGH'',
      mk_threshold EHMS_PARAM_EGT EHMS_ALERT_WARNING 0x447A0000 True 0x1002 ''ENG %d EGT OVERLIMIT'',
      mk_threshold EHMS_PARAM_OIL_PRESS EHMS_ALERT_CAUTION 0x41C80000 False 0x2001 ''ENG %d OIL PRESS LO'',
      mk_threshold EHMS_PARAM_OIL_PRESS EHMS_ALERT_WARNING 0x41700000 False 0x2002 ''ENG %d OIL PRESS CRIT'',
      mk_threshold EHMS_PARAM_OIL_TEMP EHMS_ALERT_CAUTION 0x430C0000 True 0x2003 ''ENG %d OIL TEMP HI'',
      mk_threshold EHMS_PARAM_OIL_TEMP EHMS_ALERT_WARNING 0x431B0000 True 0x2004 ''ENG %d OIL TEMP CRIT'',
      mk_threshold EHMS_PARAM_VIB_FAN EHMS_ALERT_CAUTION 0x40400000 True 0x3001 ''ENG %d FAN VIB HI'',
      mk_threshold EHMS_PARAM_VIB_FAN EHMS_ALERT_WARNING 0x40A00000 True 0x3002 ''ENG %d FAN VIB CRIT'',
      mk_threshold EHMS_PARAM_VIB_CORE EHMS_ALERT_CAUTION 0x40800000 True 0x3003 ''ENG %d CORE VIB HI'',
      mk_threshold EHMS_PARAM_VIB_CORE EHMS_ALERT_WARNING 0x40C00000 True 0x3004 ''ENG %d CORE VIB CRIT'',
      mk_threshold EHMS_PARAM_N1 EHMS_ALERT_WARNING 0x42D00000 True 0x4001 ''ENG %d N1 OVERLIMIT'',
      mk_threshold EHMS_PARAM_N2 EHMS_ALERT_WARNING 0x42D20000 True 0x4002 ''ENG %d N2 OVERLIMIT'']"

text \<open>
  \<open>snprintf(message, 64, template, n)\<close> for a template with one \<open>%d\<close>: the decimal
  digits of \<open>n\<close> replace the conversion, and at most 63 characters are stored.
\<close>

fun dec_digits :: "nat \<Rightarrow> string" where
  "dec_digits n =
     (if n < 10 then [char_of (48 + n)]
      else dec_digits (n div 10) @ [char_of (48 + n mod 10)])"

definition dec_int :: "int \<Rightarrow> string" where
  "dec_int i = (if i < 0 then CHR ''-'' # dec_digits (nat (- i)) else dec_digits (nat i))"

fun subst_d :: "string \<Rightarrow> string \<Rightarrow> string" where
  "subst_d [] ds = []"
| "subst_d (c # cs) ds =
     (if c = CHR ''%'' \<and> take 1 cs = ''d'' then ds @ drop 1 cs else c # subst_d cs ds)"

definition snprintf_d :: "nat \<Rightarrow> string \<Rightarrow> int \<Rightarrow> string" where
  "snprintf_d sz fmt n = take (sz - 1) (subst_d fmt (dec_int n))"

definition alert_init :: "ehms_result_t \<times> alert_state_t" where
  "alert_init =
     (EHMS_OK,
      \<lparr>alerts = replicate EHMS_MAX_ACTIVE_ALERTS zero_alert, active_count = 0,
       next_alert_id = 1, master_caution = False, master_warning = False,
       highest_level = EHMS_ALERT_NONE\<rparr>)"

text \<open>The active set is the first \<open>active_count\<close> slots of \<open>alerts\<close>.\<close>

definition active_set :: "alert_state_t \<Rightarrow> ehms_alert_t list" where
  "active_set s = take (unat (active_count s)) (alerts s)"

text \<open>The inner loop of \<open>alert_process_snapshot\<close>: is the row's alert already active?\<close>

definition already_active ::
  "alert_state_t \<Rightarrow> ehms_engine_snapshot_t \<Rightarrow> alert_threshold_t \<Rightarrow> bool" where
  "already_active s snapshot thresh =
     list_ex (\<lambda>al. a_param_id al = t_param_id thresh \<and> a_engine_id al = engine_id snapshot
                 \<and> a_level al = t_level thresh)
       (active_set s)"

definition exceeded :: "ehms_parameter_t \<Rightarrow> alert_threshold_t \<Rightarrow> bool" where
  "exceeded param thresh =
     (if t_high_limit thresh then f32_ge (p_eng_value param) (t_threshold thresh)
      else f32_le (p_eng_value param) (t_threshold thresh))"

definition create_alert ::
  "alert_state_t \<Rightarrow> ehms_engine_snapshot_t \<Rightarrow> alert_threshold_t \<Rightarrow> alert_state_t" where
  "create_alert s snapshot thresh =
     (let slot = unat (active_count s);
          new_alert = (alerts s ! slot)
            \<lparr>a_alert_id := next_alert_id s,
             a_level := t_level thresh,
             a_engine_id := engine_id snapshot,
             a_param_id := t_param_id thresh,
             a_onset_time := sample_time snapshot,
             a_is_active := True,
             a_is_latched := (level_val (t_level thresh) \<ge> level_val EHMS_ALERT_WARNING),
             a_message := snprintf_d 64 (t_message thresh) (int (engine_id snapshot) + 1),
             a_ecam_code := t_ecam_code thresh\<rparr>
      in s\<lparr>alerts := (alerts s)[slot := new_alert],
           next_alert_id := next_alert_id s + 1,
           active_count := active_count s + 1,
           master_warning :=
             (if level_val (t_level thresh) \<ge> level_val EHMS_ALERT_WARNING then True
              else master_warning s),
           master_caution :=
             (if level_val (t_level thresh) \<ge> level_val EHMS_ALERT_WARNING then master_caution s
              else if level_val (t_level thresh) \<ge> level_val EHMS_ALERT_CAUTION then True
              else master_caution s),
           highest_level :=
             (if level_val (t_level thresh) > level_val (highest_level s) then t_level thresh
              else highest_level s)\<rparr>)"

text \<open>
  One iteration of the loop over the threshold table. The results of
  \<open>eicas_post_message\<close> and \<open>recorder_log_alert\<close> are discarded by the source and the
  two sinks do not touch the alert state.
\<close>

definition check_threshold ::
  "ehms_engine_snapshot_t \<Rightarrow> alert_state_t \<Rightarrow> alert_threshold_t \<Rightarrow> alert_state_t" where
  "check_threshold snapshot s thresh =
     (let param = parameters snapshot ! t_param_id thresh
      in if p_status param \<noteq> EHMS_PARAM_VALID then s
         else if exceeded param thresh then
           (if \<not> already_active s snapshot thresh
                \<and> unat (active_count s) < EHMS_MAX_ACTIVE_ALERTS
            then create_alert s snapshot thresh
            else s)
         else s)"

definition alert_process_snapshot ::
  "alert_state_t \<Rightarrow> ehms_engine_snapshot_t option \<Rightarrow> ehms_result_t \<times> alert_state_t" where
  "alert_process_snapshot s snapshot =
     (case snapshot of
        None \<Rightarrow> (EHMS_ERROR_PARAM, s)
      | Some snap \<Rightarrow> (EHMS_OK, foldl (check_threshold snap) s s_thresholds))"

definition alert_get_active_count :: "alert_state_t \<Rightarrow> u32" where
  "alert_get_active_count s = active_count s"

definition alert_get_highest_level :: "alert_state_t \<Rightarrow> ehms_alert_level_t" where
  "alert_get_highest_level s = highest_level s"

definition alert_is_master_warning :: "alert_state_t \<Rightarrow> bool" where
  "alert_is_master_warning s = master_warning s"

definition alert_is_master_caution :: "alert_state_t \<Rightarrow> bool" where
  "alert_is_master_caution s = master_caution s"

definition alert_acknowledge ::
  "alert_state_t \<Rightarrow> ehms_alert_level_t \<Rightarrow> ehms_result_t \<times> alert_state_t" where
  "alert_acknowledge s level =
     (if level_val level \<ge> level_val EHMS_ALERT_WARNING
        then (EHMS_OK, s\<lparr>master_warning := False\<rparr>)
      else if level_val level \<ge> level_val EHMS_ALERT_CAUTION
        then (EHMS_OK, s\<lparr>master_caution := False\<rparr>)
      else (EHMS_OK, s))"

text \<open>
  Sequences of calls on the alert manager after \<open>alert_init\<close>, and the identity of an
  alert as the specification has it.
\<close>

datatype alert_call =
  Process "ehms_engine_snapshot_t option"
| Acknowledge ehms_alert_level_t

fun alert_call_step :: "alert_state_t \<Rightarrow> alert_call \<Rightarrow> alert_state_t" where
  "alert_call_step s (Process snapshot) = snd (alert_process_snapshot s snapshot)"
| "alert_call_step s (Acknowledge level) = snd (alert_acknowledge s level)"

definition alert_run :: "alert_call list \<Rightarrow> alert_state_t" where
  "alert_run calls = foldl alert_call_step (snd alert_init) calls"

definition alert_key ::
  "ehms_alert_t \<Rightarrow> ehms_engine_id_t \<times> ehms_param_id_t \<times> ehms_alert_level_t" where
  "alert_key al = (a_engine_id al, a_param_id al, a_level al)"

definition param_valid :: "ehms_engine_snapshot_t \<Rightarrow> alert_threshold_t \<Rightarrow> bool" where
  "param_valid snap th \<longleftrightarrow> p_status (parameters snap ! t_param_id th) = EHMS_PARAM_VALID"

text \<open>A snapshot with the engineering value of every parameter that is not Valid replaced.\<close>

definition scrub_invalid :: "float32 \<Rightarrow> ehms_engine_snapshot_t \<Rightarrow> ehms_engine_snapshot_t" where
  "scrub_invalid v snap =
     snap\<lparr>parameters :=
       map (\<lambda>p. if p_status p = EHMS_PARAM_VALID then p else p\<lparr>p_eng_value := v\<rparr>)
         (parameters snap)\<rparr>"

text \<open>
  Predicates on alert states: the array and the count fit each other, the active set has
  no tuple twice, a row's alert is there or the set is full.
\<close>

definition alert_wf :: "alert_state_t \<Rightarrow> bool" where
  "alert_wf s \<longleftrightarrow> length (alerts s) = EHMS_MAX_ACTIVE_ALERTS
      \<and> unat (active_count s) \<le> EHMS_MAX_ACTIVE_ALERTS"

definition unique_keys :: "alert_state_t \<Rightarrow> bool" where
  "unique_keys s \<longleftrightarrow> distinct (map alert_key (active_set s))
      \<and> list_all a_is_active (active_set s)"

definition raised_or_full ::
  "alert_state_t \<Rightarrow> ehms_engine_snapshot_t \<Rightarrow> alert_threshold_t \<Rightarrow> bool" where
  "raised_or_full s snap th \<longleftrightarrow>
     already_active s snap th \<or> EHMS_MAX_ACTIVE_ALERTS \<le> unat (active_count s)"

section \<open>Data acquisition (data\_acquisition.c)\<close>

definition DAQ_STALE_TIMEOUT_MS :: nat where "DAQ_STALE_TIMEOUT_MS = 100"
definition DAQ_MAX_CONSECUTIVE_FAILURES :: nat where "DAQ_MAX_CONSECUTIVE_FAILURES = 5"
definition DAQ_CRC32_POLYNOMIAL :: u32 where "DAQ_CRC32_POLYNOMIAL = 0xEDB88320"
definition EHMS_MAX_SAMPLE_RATE_HZ :: nat where "EHMS_MAX_SAMPLE_RATE_HZ = 100"
definition EHMS_1553_RT_ADDRESS :: u8 where "EHMS_1553_RT_ADDRESS = 0x05"

record daq_source_info_t =
  is_active :: bool
  is_primary :: bool
  bus_id :: u8
  last_update_ms :: u32
  failure_count :: u32
  total_samples :: u32
  error_samples :: u32

record daq_module_state_t =
  is_initialized :: bool
  state :: ehms_system_state_t
  cycle_count :: u32
  current_time_ms :: u32
  sources :: "daq_source_info_t list"
  engine_data :: "ehms_engine_snapshot_t list"
  last_error :: ehms_result_t

text \<open>
  \<open>data_acquisition.h\<close> is not part of the sources: the configuration types have the
  fields that the initialiser of \<open>s_param_config\<close>, \<open>daq_validate_config\<close> and the
  test fixture use.
\<close>

record daq_param_config_t =
  c_param_id :: ehms_param_id_t
  arinc_label :: u16
  bus_primary :: u8
  bus_backup :: u8
  scale_factor :: float32
  offset :: float32

datatype arinc429_speed_t = ARINC429_HIGH_SPEED | ARINC429_LOW_SPEED
datatype arinc429_parity_t = ARINC429_ODD_PARITY | ARINC429_EVEN_PARITY

record daq_config_t =
  sample_rate_hz :: u32
  engine_count :: u32
  arinc_config :: "(arinc429_speed_t \<times> arinc429_parity_t) list"

definition mk_config ::
  "ehms_param_id_t \<Rightarrow> u16 \<Rightarrow> u8 \<Rightarrow> u8 \<Rightarrow> float32 \<Rightarrow> float32 \<Rightarrow> daq_param_config_t" where
  "mk_config p l bp bb sc off =
     \<lparr>c_param_id = p, arinc_label = l, bus_primary = bp, bus_backup = bb,
      scale_factor = sc, offset = off\<rparr>"

text \<open>
  The parameter table: ten initialised rows, the labels octal 310 to 321, the scale
  factors 0.1f, 1.0f, 0.5f and 0.001f and the offset -40.0f as bit patterns. The array
  has \<open>EHMS_PARAM_COUNT\<close> elements, so C fills the rows that the initialiser leaves out
  with zeros.
\<close>

definition s_param_config :: "daq_param_config_t list" where
  "s_param_config =
     [mk_config EHMS_PARAM_N1 200 0 1 0x3DCCCCCD 0,
      mk_config EHMS_PARAM_N2 201 0 1 0x3DCCCCCD 0,
      mk_config EHMS_PARAM_EGT 202 0 1 0x3F800000 0,
      mk_config EHMS_PARAM_FF 203 0 1 0x3DCCCCCD 0,
      mk_config EHMS_PARAM_OIL_TEMP 204 0 1 0x3F000000 0xC2200000,
      mk_config EHMS_PARAM_OIL_PRESS 205 0 1 0x3DCCCCCD 0,
      mk_config EHMS_PARAM_OIL_QTY 206 0 1 0x3F000000 0,
      mk_config EHMS_PARAM_VIB_FAN 207 2 3 0x3A83126F 0,
      mk_config EHMS_PARAM_VIB_CORE 208 2 3 0x3A83126F 0,
      mk_config EHMS_PARAM_EPR 209 0 1 0x3A83126F 0]
     @ replicate (EHMS_PARAM_COUNT - 10) (mk_config 0 0 0 0 0 0)"

text \<open>
  The collaborators that the module calls and that live outside it (bus drivers, clock,
  configuration, parameter database) are parameters of the model: one record of what they
  answer during one call of the module.
\<close>

record daq_env =
  arinc429_init :: "u8 \<Rightarrow> ehms_result_t"
  milstd1553_init :: "u8 \<Rightarrow> ehms_result_t"
  system_get_time_ms :: u32
  system_get_timestamp :: ehms_timestamp_t
  timestamp_to_ms :: "ehms_timestamp_t \<Rightarrow> u32"
  config_get_engine_count :: nat
  arinc429_read :: "u8 \<Rightarrow> u16 \<Rightarrow> ehms_result_t \<times> u32"
  milstd1553_read_subaddress :: "u8 \<Rightarrow> ehms_result_t \<times> u16 list"
  param_db_get_limits :: "ehms_param_id_t \<Rightarrow> ehms_result_t \<times> float32 \<times> float32"

text \<open>
  The float arithmetic of the target (conversion from an integer, multiplication and
  addition, each with its rounding) is a parameter as well.
\<close>

record c_float_ops =
  f32_of_u32 :: "u32 \<Rightarrow> float32"
  f32_mul :: "float32 \<Rightarrow> float32 \<Rightarrow> float32"
  f32_add :: "float32 \<Rightarrow> float32 \<Rightarrow> float32"

definition zero_source :: daq_source_info_t where
  "zero_source =
     \<lparr>is_active = False, is_primary = False, bus_id = 0, last_update_ms = 0,
      failure_count = 0, total_samples = 0, error_samples = 0\<rparr>"

definition zero_daq_state :: daq_module_state_t where
  "zero_daq_state =
     \<lparr>is_initialized = False, state = EHMS_STATE_OFF, cycle_count = 0, current_time_ms = 0,
      sources = replicate EHMS_ARINC429_BUS_COUNT zero_source,
      engine_data = replicate EHMS_MAX_ENGINES zero_snapshot,
      last_error = EHMS_OK\<rparr>"

definition daq_validate_config :: "daq_config_t \<Rightarrow> ehms_result_t" where
  "daq_validate_config config =
     (if unat (sample_rate_hz config) > EHMS_MAX_SAMPLE_RATE_HZ then EHMS_ERROR_RANGE
      else if unat (engine_count config) > EHMS_MAX_ENGINES then EHMS_ERROR_RANGE
      else EHMS_OK)"

definition daq_init_sources :: "daq_module_state_t \<Rightarrow> ehms_result_t \<times> daq_module_state_t" where
  "daq_init_sources s =
     (EHMS_OK,
      s\<lparr>sources :=
          map (\<lambda>i. (sources s ! i)
                 \<lparr>is_active := True, is_primary := (i < 2), bus_id := word_of_nat i,
                  last_update_ms := 0, failure_count := 0, total_samples := 0,
                  error_samples := 0\<rparr>)
            [0..<EHMS_ARINC429_BUS_COUNT]\<rparr>)"

text \<open>The loop over the buses in \<open>daq_init\<close> stops at the first driver that fails.\<close>

fun init_buses :: "daq_env \<Rightarrow> nat list \<Rightarrow> ehms_result_t" where
  "init_buses env [] = EHMS_OK"
| "init_buses env (bus # buses) =
     (if arinc429_init env (word_of_nat bus) \<noteq> EHMS_OK then arinc429_init env (word_of_nat bus)
      else init_buses env buses)"

definition daq_init ::
  "daq_env \<Rightarrow> daq_module_state_t \<Rightarrow> daq_config_t option
     \<Rightarrow> ehms_result_t \<times> daq_module_state_t" where
  "daq_init env s config =
     (let valid = (case config of None \<Rightarrow> EHMS_ERROR_PARAM | Some c \<Rightarrow> daq_validate_config c)
      in if valid \<noteq> EHMS_OK then (valid, s)
         else
           let s1 = snd (daq_init_sources zero_daq_state);
               arinc = init_buses env [0..<EHMS_ARINC429_BUS_COUNT]
           in if arinc \<noteq> EHMS_OK then (arinc, s1)
              else if milstd1553_init env EHMS_1553_RT_ADDRESS \<noteq> EHMS_OK
                then (milstd1553_init env EHMS_1553_RT_ADDRESS, s1)
              else (EHMS_OK, s1\<lparr>is_initialized := True, state := EHMS_STATE_INIT\<rparr>))"

definition daq_update_statistics ::
  "daq_module_state_t \<Rightarrow> u8 \<Rightarrow> bool \<Rightarrow> daq_module_state_t" where
  "daq_update_statistics s bus success =
     (if unat bus < EHMS_ARINC429_BUS_COUNT then
        let src = (sources s ! unat bus)
              \<lparr>total_samples := total_samples (sources s ! unat bus) + 1,
               last_update_ms := current_time_ms s\<rparr>;
            src' =
              (if \<not> success then
                 let failed = src\<lparr>error_samples := error_samples src + 1,
                                 failure_count := failure_count src + 1\<rparr>
                 in if unat (failure_count failed) \<ge> DAQ_MAX_CONSECUTIVE_FAILURES
                    then failed\<lparr>is_active := False\<rparr> else failed
               else src\<lparr>failure_count := 0\<rparr>)
        in s\<lparr>sources := (sources s)[unat bus := src']\<rparr>
      else s)"

text \<open>A write through \<open>&s_daq_state.engine_data[engine].parameters[p]\<close>.\<close>

definition update_parameter ::
  "daq_module_state_t \<Rightarrow> ehms_engine_id_t \<Rightarrow> nat \<Rightarrow> (ehms_parameter_t \<Rightarrow> ehms_parameter_t)
     \<Rightarrow> daq_module_state_t" where
  "update_parameter s engine p f =
     s\<lparr>engine_data := (engine_data s)
         [engine := (engine_data s ! engine)
            \<lparr>parameters := (parameters (engine_data s ! engine))
               [p := f (parameters (engine_data s ! engine) ! p)]\<rparr>]\<rparr>"

text \<open>One iteration of the loop of \<open>daq_read_arinc429_data\<close>, on the pair of the
  result so far and the module state.\<close>

definition daq_read_parameter ::
  "c_float_ops \<Rightarrow> daq_env \<Rightarrow> u8 \<Rightarrow> ehms_engine_id_t \<Rightarrow> ehms_result_t \<times> daq_module_state_t
     \<Rightarrow> nat \<Rightarrow> ehms_result_t \<times> daq_module_state_t" where
  "daq_read_parameter fp env bus engine rs p =
     (if bus_primary (s_param_config ! p) = bus then
        (case arinc429_read env bus (arinc_label (s_param_config ! p)) of
           (result, data) \<Rightarrow>
             if result = EHMS_OK then
               (result,
                daq_update_statistics
                  (update_parameter (snd rs) engine p
                    (\<lambda>param. param
                       \<lparr>p_param_id := p,
                        p_raw_value := data,
                        p_eng_value :=
                          f32_add fp
                            (f32_mul fp (f32_of_u32 fp data) (scale_factor (s_param_config ! p)))
                            (offset (s_param_config ! p)),
                        p_source_bus := bus,
                        p_status := EHMS_PARAM_VALID,
                        p_timestamp := system_get_timestamp env\<rparr>))
                  bus True)
             else (result, daq_update_statistics (snd rs) bus False))
      else rs)"

definition daq_read_arinc429_data ::
  "c_float_ops \<Rightarrow> daq_env \<Rightarrow> daq_module_state_t \<Rightarrow> u8 \<Rightarrow> ehms_engine_id_t
     \<Rightarrow> ehms_result_t \<times> daq_module_state_t" where
  "daq_read_arinc429_data fp env s bus engine =
     foldl (daq_read_parameter fp env bus engine) (EHMS_OK, s) [0..<EHMS_PARAM_COUNT]"

definition daq_read_1553_data ::
  "c_float_ops \<Rightarrow> daq_env \<Rightarrow> daq_module_state_t \<Rightarrow> ehms_engine_id_t
     \<Rightarrow> ehms_result_t \<times> daq_module_state_t" where
  "daq_read_1553_data fp env s engine =
     (case milstd1553_read_subaddress env 5 of
        (result, msg) \<Rightarrow>
          if result = EHMS_OK then
            (result,
             update_parameter
               (update_parameter s engine EHMS_PARAM_VIB_FAN
                 (\<lambda>vib_fan. vib_fan
                    \<lparr>p_raw_value := ucast (msg ! 0),
                     p_eng_value := f32_mul fp (f32_of_u32 fp (ucast (msg ! 0))) 0x3A83126F,
                     p_status := EHMS_PARAM_VALID\<rparr>))
               engine EHMS_PARAM_VIB_CORE
               (\<lambda>vib_core. vib_core
                  \<lparr>p_raw_value := ucast (msg ! 1),
                   p_eng_value := f32_mul fp (f32_of_u32 fp (ucast (msg ! 1))) 0x3A83126F,
                   p_status := EHMS_PARAM_VALID\<rparr>))
          else (result, s))"

definition daq_validate_parameter ::
  "daq_env \<Rightarrow> ehms_parameter_t \<Rightarrow> ehms_result_t \<times> ehms_parameter_t" where
  "daq_validate_parameter env param =
     (case param_db_get_limits env (p_param_id param) of
        (found, min_value, max_value) \<Rightarrow>
          if found = EHMS_OK then
            (if f32_lt (p_eng_value param) min_value \<or> f32_gt (p_eng_value param) max_value
             then (EHMS_ERROR_RANGE, param\<lparr>p_status := EHMS_PARAM_FAILED\<rparr>)
             else (EHMS_OK, param))
          else (EHMS_OK, param))"

definition daq_check_staleness ::
  "daq_env \<Rightarrow> daq_module_state_t \<Rightarrow> ehms_parameter_t \<Rightarrow> ehms_result_t \<times> ehms_parameter_t" where
  "daq_check_staleness env s param =
     (let param_age_ms = current_time_ms s - timestamp_to_ms env (p_timestamp param)
      in if unat param_age_ms > DAQ_STALE_TIMEOUT_MS then
           (EHMS_ERROR_TIMEOUT,
            if p_status param = EHMS_PARAM_VALID then param\<lparr>p_status := EHMS_PARAM_STALE\<rparr>
            else param)
         else (EHMS_OK, param))"

text \<open>CRC-32, bit by bit as the source computes it.\<close>

definition crc_bit :: "u32 \<Rightarrow> u32" where
  "crc_bit crc =
     (if crc AND 1 \<noteq> 0 then drop_bit 1 crc XOR DAQ_CRC32_POLYNOMIAL else drop_bit 1 crc)"

definition crc_byte :: "u32 \<Rightarrow> u8 \<Rightarrow> u32" where
  "crc_byte crc b = (crc_bit ^^ 8) (crc XOR ucast b)"

definition daq_calculate_crc32 :: "u8 list \<Rightarrow> u32" where
  "daq_calculate_crc32 bytes = NOT (foldl crc_byte 0xFFFFFFFF bytes)"

text \<open>
  The bytes of a snapshot before its \<open>crc32\<close> field, that is
  \<open>sizeof(ehms_engine_snapshot_t) - sizeof(uint32_t)\<close> bytes from its address: the
  fields in declaration order, little-endian, an enum in four bytes, every field at its
  natural alignment, padding bytes zero as \<open>memset\<close> left them.
\<close>

fun status_val :: "ehms_param_status_t \<Rightarrow> u32" where
  "status_val EHMS_PARAM_VALID = 0"
| "status_val EHMS_PARAM_STALE = 1"
| "status_val EHMS_PARAM_FAILED = 2"
| "status_val EHMS_PARAM_NCD = 3"
| "status_val EHMS_PARAM_TEST = 4"

fun health_val :: "ehms_health_status_t \<Rightarrow> u32" where
  "health_val EHMS_HEALTH_NORMAL = 0"
| "health_val EHMS_HEALTH_MONITOR = 1"
| "health_val EHMS_HEALTH_CAUTION = 2"
| "health_val EHMS_HEALTH_ACTION_REQ = 3"
| "health_val EHMS_HEALTH_CRITICAL = 4"

definition le16 :: "u16 \<Rightarrow> u8 list" where
  "le16 w = [ucast w, ucast (drop_bit 8 w)]"

definition le32 :: "u32 \<Rightarrow> u8 list" where
  "le32 w = [ucast w, ucast (drop_bit 8 w), ucast (drop_bit 16 w), ucast (drop_bit 24 w)]"

definition timestamp_bytes :: "ehms_timestamp_t \<Rightarrow> u8 list" where
  "timestamp_bytes ts =
     le16 (year ts) @ [month ts, day ts, hour ts, minute ts, second ts, 0]
     @ le16 (millisecond ts)"

definition parameter_bytes :: "ehms_parameter_t \<Rightarrow> u8 list" where
  "parameter_bytes p =
     le32 (word_of_nat (p_param_id p)) @ le32 (status_val (p_status p)) @ le32 (p_raw_value p)
     @ le32 (p_eng_value p) @ timestamp_bytes (p_timestamp p) @ [p_source_bus p, 0]"

definition payload_rest :: "ehms_engine_snapshot_t \<Rightarrow> u8 list" where
  "payload_rest snap =
     [0, 0] @ le32 (flight_phase snap) @ concat (map parameter_bytes (parameters snap))
     @ le32 (health_val (health_status snap))"

definition snapshot_payload :: "ehms_engine_snapshot_t \<Rightarrow> u8 list" where
  "snapshot_payload snap =
     le32 (word_of_nat (engine_id snap)) @ timestamp_bytes (sample_time snap)
     @ payload_rest snap"

text \<open>
  The body of the loop over the engines in \<open>daq_execute_cycle\<close>, in two parts: the
  reads (primary bus, backup bus if the primary read did not return \<open>EHMS_OK\<close>, then
  the multiplex bus), and the sweep over the parameters with the CRC and the timestamp.
\<close>

definition daq_read_sources ::
  "c_float_ops \<Rightarrow> daq_env \<Rightarrow> daq_module_state_t \<Rightarrow> ehms_engine_id_t
     \<Rightarrow> ehms_result_t \<times> daq_module_state_t" where
  "daq_read_sources fp env s eng =
     (let primary = daq_read_arinc429_data fp env s (bus_primary (s_param_config ! 0)) eng;
          arinc = (if fst primary \<noteq> EHMS_OK
                   then daq_read_arinc429_data fp env (snd primary)
                          (bus_backup (s_param_config ! 0)) eng
                   else primary)
      in if fst arinc = EHMS_OK then daq_read_1553_data fp env (snd arinc) eng else arinc)"

definition daq_acquire_engine ::
  "c_float_ops \<Rightarrow> daq_env \<Rightarrow> daq_module_state_t \<Rightarrow> ehms_engine_id_t \<Rightarrow> daq_module_state_t" where
  "daq_acquire_engine fp env s eng =
     (let s1 = snd (daq_read_sources fp env s eng);
          checked = (engine_data s1 ! eng)
            \<lparr>parameters :=
               map (\<lambda>param. snd (daq_check_staleness env s1
                                   (snd (daq_validate_parameter env param))))
                 (parameters (engine_data s1 ! eng))\<rparr>;
          stamped = checked\<lparr>crc32 := daq_calculate_crc32 (snapshot_payload checked)\<rparr>
      in s1\<lparr>engine_data :=
              (engine_data s1)[eng := stamped\<lparr>sample_time := system_get_timestamp env\<rparr>]\<rparr>)"

definition daq_execute_cycle ::
  "c_float_ops \<Rightarrow> daq_env \<Rightarrow> daq_module_state_t \<Rightarrow> ehms_result_t \<times> daq_module_state_t" where
  "daq_execute_cycle fp env s =
     (if \<not> is_initialized s then (EHMS_ERROR_NOT_INIT, s)
      else
        (EHMS_OK,
         foldl (daq_acquire_engine fp env)
           (s\<lparr>current_time_ms := system_get_time_ms env, cycle_count := cycle_count s + 1\<rparr>)
           [0..<config_get_engine_count env]))"

text \<open>
  \<open>daq_get_engine_snapshot\<close>: the out-parameter is \<open>None\<close> for a null pointer, and holds
  the copy on success. \<open>error_report\<close> does not touch the module state.
\<close>

definition daq_get_engine_snapshot ::
  "daq_module_state_t \<Rightarrow> ehms_engine_id_t \<Rightarrow> ehms_engine_snapshot_t option
     \<Rightarrow> ehms_result_t \<times> ehms_engine_snapshot_t option" where
  "daq_get_engine_snapshot s eid snapshot =
     (if snapshot = None then (EHMS_ERROR_PARAM, snapshot)
      else if eid \<ge> EHMS_ENGINE_COUNT then (EHMS_ERROR_RANGE, snapshot)
      else if \<not> is_initialized s then (EHMS_ERROR_NOT_INIT, snapshot)
      else if daq_calculate_crc32 (snapshot_payload (engine_data s ! eid))
                \<noteq> crc32 (engine_data s ! eid)
        then (EHMS_ERROR_CRC, snapshot)
      else (EHMS_OK, Some (engine_data s ! eid)))"

definition daq_get_parameter ::
  "daq_module_state_t \<Rightarrow> ehms_engine_id_t \<Rightarrow> ehms_param_id_t \<Rightarrow> ehms_parameter_t option
     \<Rightarrow> ehms_result_t \<times> ehms_parameter_t option" where
  "daq_get_parameter s eid pid param =
     (if param = None then (EHMS_ERROR_PARAM, param)
      else if eid \<ge> EHMS_ENGINE_COUNT \<or> pid \<ge> EHMS_PARAM_COUNT then (EHMS_ERROR_RANGE, param)
      else if \<not> is_initialized s then (EHMS_ERROR_NOT_INIT, param)
      else (EHMS_OK, Some (parameters (engine_data s ! eid) ! pid)))"

text \<open>
  The reads that \<open>daq_update_statistics\<close> records, as a sequence of pairs of the bus and
  whether the read succeeded, from the state that \<open>daq_init_sources\<close> sets up. No other
  function of the module writes \<open>sources\<close>.
\<close>

definition record_read :: "daq_module_state_t \<Rightarrow> u8 \<times> bool \<Rightarrow> daq_module_state_t" where
  "record_read s r = daq_update_statistics s (fst r) (snd r)"

definition daq_reads :: "(u8 \<times> bool) list \<Rightarrow> daq_module_state_t" where
  "daq_reads rs = foldl record_read (snd (daq_init_sources zero_daq_state)) rs"

definition source_of :: "daq_module_state_t \<Rightarrow> u8 \<Rightarrow> daq_source_info_t" where
  "source_of s bus = sources s ! unat bus"

text \<open>
  For the proofs: the counter of a bus was at the limit after some prefix of the reads;
  and what a step that works on the slot of one engine leaves alone.
\<close>

definition reached_limit :: "(u8 \<times> bool) list \<Rightarrow> u8 \<Rightarrow> bool" where
  "reached_limit rs bus \<longleftrightarrow>
     (\<exists>k. k \<le> length rs
        \<and> DAQ_MAX_CONSECUTIVE_FAILURES
            \<le> unat (failure_count (source_of (daq_reads (take k rs)) bus)))"

definition same_frame :: "nat \<Rightarrow> daq_module_state_t \<Rightarrow> daq_module_state_t \<Rightarrow> bool" where
  "same_frame eng s s' \<longleftrightarrow>
     is_initialized s' = is_initialized s
     \<and> current_time_ms s' = current_time_ms s
     \<and> length (engine_data s') = length (engine_data s)
     \<and> (\<forall>k. k \<noteq> eng \<longrightarrow> engine_data s' ! k = engine_data s ! k)
     \<and> engine_id (engine_data s' ! eng) = engine_id (engine_data s ! eng)
     \<and> sample_time (engine_data s' ! eng) = sample_time (engine_data s ! eng)
     \<and> length (parameters (engine_data s' ! eng)) = length (parameters (engine_data s ! eng))"

section \<open>Concrete scenarios\<close>

text \<open>
  Snapshots for the scenarios below: one parameter set and every other parameter marked
  \<open>NoComputedData\<close>, or every parameter Valid at 1000.0.
\<close>

definition tick_time :: "nat \<Rightarrow> ehms_timestamp_t" where
  "tick_time n =
     \<lparr>year = 2025, month = 1, day = 15, hour = 12, minute = 0, second = 0,
      millisecond = word_of_nat (10 * n)\<rparr>"

definition probe_snapshot ::
  "ehms_engine_id_t \<Rightarrow> ehms_timestamp_t \<Rightarrow> ehms_param_id_t \<Rightarrow> ehms_param_status_t \<Rightarrow> float32
     \<Rightarrow> ehms_engine_snapshot_t" where
  "probe_snapshot e ts p st v =
     zero_snapshot\<lparr>engine_id := e, sample_time := ts,
       parameters := (replicate EHMS_PARAM_COUNT (zero_parameter\<lparr>p_status := EHMS_PARAM_NCD\<rparr>))
         [p := zero_parameter\<lparr>p_param_id := p, p_status := st, p_eng_value := v\<rparr>]\<rparr>"

definition hot_snapshot :: "ehms_engine_id_t \<Rightarrow> ehms_engine_snapshot_t" where
  "hot_snapshot e =
     zero_snapshot\<lparr>engine_id := e,
       parameters := replicate EHMS_PARAM_COUNT (zero_parameter\<lparr>p_eng_value := 0x447A0000\<rparr>)\<rparr>"

text \<open>Engine 2 (index 1) with EGT at 950.0, at 600.0, and with a stale EGT of 1000.0.\<close>

definition egt_high :: ehms_engine_snapshot_t where
  "egt_high = probe_snapshot 1 (tick_time 1) EHMS_PARAM_EGT EHMS_PARAM_VALID 0x446D8000"

definition egt_normal :: ehms_engine_snapshot_t where
  "egt_normal = probe_snapshot 1 (tick_time 2) EHMS_PARAM_EGT EHMS_PARAM_VALID 0x44160000"

definition egt_stale :: ehms_engine_snapshot_t where
  "egt_stale = probe_snapshot 1 (tick_time 1) EHMS_PARAM_EGT EHMS_PARAM_STALE 0x447A0000"

text \<open>Engine 1 with EGT at 1000.0: the Caution row and the Warning row both fire.\<close>

definition egt_over :: ehms_engine_snapshot_t where
  "egt_over = probe_snapshot 0 (tick_time 1) EHMS_PARAM_EGT EHMS_PARAM_VALID 0x447A0000"

text \<open>Engine 4 with N2 at 105.0, and the state in which 32 alerts are active.\<close>

definition n2_over :: ehms_engine_snapshot_t where
  "n2_over = probe_snapshot 3 (tick_time 5) EHMS_PARAM_N2 EHMS_PARAM_VALID 0x42D20000"

definition saturated :: alert_state_t where
  "saturated =
     alert_run [Process (Some (hot_snapshot 0)), Process (Some (hot_snapshot 1)),
                Process (Some (hot_snapshot 2)), Process (Some (hot_snapshot 3))]"

text \<open>
  The acquisition module after a successful \<open>daq_init\<close> with the configuration of the
  test fixture, and two ticks of the environment: one in which every bus answers (raw
  value 850 on every label), and one in which bus 0 reports a hardware error on every
  read while bus 1 would answer. The clock reads 12:00:00.010, the parameter database has
  no limits.
\<close>

definition test_config :: daq_config_t where
  "test_config =
     \<lparr>sample_rate_hz = 100, engine_count = 2,
      arinc_config = replicate EHMS_ARINC429_BUS_COUNT (ARINC429_HIGH_SPEED, ARINC429_ODD_PARITY)\<rparr>"

definition ms_of_day :: "ehms_timestamp_t \<Rightarrow> u32" where
  "ms_of_day ts =
     ((ucast (hour ts) * 60 + ucast (minute ts)) * 60 + ucast (second ts)) * 1000
     + ucast (millisecond ts)"

definition nominal_env :: daq_env where
  "nominal_env =
     \<lparr>arinc429_init = (\<lambda>bus. EHMS_OK),
      milstd1553_init = (\<lambda>rt. EHMS_OK),
      system_get_time_ms = 43200010,
      system_get_timestamp = tick_time 1,
      timestamp_to_ms = ms_of_day,
      config_get_engine_count = 2,
      arinc429_read = (\<lambda>bus label. (EHMS_OK, 850)),
      milstd1553_read_subaddress = (\<lambda>sub. (EHMS_OK, replicate 32 0)),
      param_db_get_limits = (\<lambda>p. (EHMS_ERROR, 0, 0))\<rparr>"

definition failover_env :: daq_env where
  "failover_env =
     nominal_env
       \<lparr>arinc429_read :=
          (\<lambda>bus label. if bus = 0 then (EHMS_ERROR_HARDWARE, 0) else (EHMS_OK, 850))\<rparr>"

text \<open>The tick after \<open>nominal_env\<close>, 10 ms later.\<close>

definition next_env :: daq_env where
  "next_env = nominal_env\<lparr>system_get_time_ms := 43200020, system_get_timestamp := tick_time 2\<rparr>"

definition power_on :: daq_module_state_t where
  "power_on = snd (daq_init nominal_env zero_daq_state (Some test_config))"

section \<open>Sanity of the tables\<close>

lemmas param_ids =
  EHMS_PARAM_N1_def EHMS_PARAM_N2_def EHMS_PARAM_EGT_def EHMS_PARAM_FF_def
  EHMS_PARAM_OIL_TEMP_def EHMS_PARAM_OIL_PRESS_def EHMS_PARAM_OIL_QTY_def
  EHMS_PARAM_VIB_FAN_def EHMS_PARAM_VIB_CORE_def EHMS_PARAM_EPR_def

lemma s_thresholds_values:
  "map (\<lambda>t. (f32_is_nan (t_threshold t), f32_scaled (t_threshold t))) s_thresholds
     = map (\<lambda>v. (False, v * 2 ^ 149)) [950, 1000, 25, 15, 140, 155, 3, 5, 4, 6, 104, 105]"
  by code_simp

lemma snprintf_d_example: "snprintf_d 64 ''ENG %d EGT HIGH'' 2 = ''ENG 2 EGT HIGH''"
  by code_simp

lemma s_thresholds_param_bound:
  "th \<in> set s_thresholds \<Longrightarrow> t_param_id th < EHMS_PARAM_COUNT"
  by (auto simp: s_thresholds_def mk_threshold_def EHMS_PARAM_COUNT_def param_ids)

section \<open>The loop of the alert manager\<close>

lemma unat_count_Suc:
  "unat (c :: u32) < EHMS_MAX_ACTIVE_ALERTS \<Longrightarrow> unat (c + 1) = Suc (unat c)"
  by (simp add: EHMS_MAX_ACTIVE_ALERTS_def unat_word_ariths)

lemma check_threshold_cases:
  "check_threshold snap s th = s \<or>
   (check_threshold snap s th = create_alert s snap th
    \<and> p_status (parameters snap ! t_param_id th) = EHMS_PARAM_VALID
    \<and> exceeded (parameters snap ! t_param_id th) th
    \<and> \<not> already_active s snap th
    \<and> unat (active_count s) < EHMS_MAX_ACTIVE_ALERTS)"
  by (simp add: check_threshold_def Let_def)

lemma create_alert_count:
  "unat (active_count s) < EHMS_MAX_ACTIVE_ALERTS \<Longrightarrow>
   unat (active_count (create_alert s snap th)) = Suc (unat (active_count s))"
  by (simp add: create_alert_def Let_def unat_count_Suc)

lemma create_alert_take:
  "take (unat (active_count s)) (alerts (create_alert s snap th))
     = take (unat (active_count s)) (alerts s)"
  by (simp add: create_alert_def Let_def)

lemma create_alert_length:
  "length (alerts (create_alert s snap th)) = length (alerts s)"
  by (simp add: create_alert_def Let_def)

lemma check_threshold_length:
  "length (alerts (check_threshold snap s th)) = length (alerts s)"
  using check_threshold_cases [of snap s th] by (auto simp: create_alert_length)

lemma check_threshold_count_mono:
  "unat (active_count s) \<le> unat (active_count (check_threshold snap s th))"
  using check_threshold_cases [of snap s th] by (auto simp: create_alert_count)

lemma check_threshold_take:
  "take (unat (active_count s)) (alerts (check_threshold snap s th))
     = take (unat (active_count s)) (alerts s)"
  using check_threshold_cases [of snap s th] by (auto simp: create_alert_take)

lemma foldl_check_length:
  "length (alerts (foldl (check_threshold snap) s ths)) = length (alerts s)"
  by (induction ths arbitrary: s) (simp_all add: check_threshold_length)

lemma foldl_check_count_mono:
  "unat (active_count s) \<le> unat (active_count (foldl (check_threshold snap) s ths))"
proof (induction ths arbitrary: s)
  case Nil
  then show ?case by simp
next
  case (Cons th ths)
  have "unat (active_count s) \<le> unat (active_count (check_threshold snap s th))"
    by (rule check_threshold_count_mono)
  also have "\<dots> \<le> unat (active_count
      (foldl (check_threshold snap) (check_threshold snap s th) ths))"
    by (rule Cons.IH)
  finally show ?case by simp
qed

text \<open>The slots below \<open>active_count\<close> are never written again.\<close>

lemma foldl_check_take:
  "take (unat (active_count s)) (alerts (foldl (check_threshold snap) s ths))
     = take (unat (active_count s)) (alerts s)"
proof (induction ths arbitrary: s)
  case Nil
  then show ?case by simp
next
  case (Cons th ths)
  let ?s1 = "check_threshold snap s th"
  let ?n = "unat (active_count s)" and ?n1 = "unat (active_count ?s1)"
  have le: "?n \<le> ?n1" by (rule check_threshold_count_mono)
  have "take ?n (alerts (foldl (check_threshold snap) ?s1 ths))
      = take ?n (take ?n1 (alerts (foldl (check_threshold snap) ?s1 ths)))"
    using le by (simp add: min_def)
  also have "\<dots> = take ?n (take ?n1 (alerts ?s1))"
    by (simp only: Cons.IH)
  also have "\<dots> = take ?n (alerts ?s1)"
    using le by (simp add: min_def)
  also have "\<dots> = take ?n (alerts s)"
    by (rule check_threshold_take)
  finally show ?case by simp
qed

subsection \<open>The highest level\<close>

lemma create_alert_highest:
  "level_val (highest_level s) \<le> level_val (highest_level (create_alert s snap th))"
  by (simp add: create_alert_def Let_def)

lemma check_threshold_highest:
  "level_val (highest_level s) \<le> level_val (highest_level (check_threshold snap s th))"
  using check_threshold_cases [of snap s th] by (auto simp: create_alert_highest)

lemma foldl_check_highest:
  "level_val (highest_level s)
     \<le> level_val (highest_level (foldl (check_threshold snap) s ths))"
proof (induction ths arbitrary: s)
  case Nil
  then show ?case by simp
next
  case (Cons th ths)
  show ?case
    using check_threshold_highest [of s snap th]
      Cons.IH [of "check_threshold snap s th"] by simp
qed

lemma alert_call_step_highest:
  "level_val (highest_level s) \<le> level_val (highest_level (alert_call_step s c))"
proof (cases c)
  case (Process snapshot)
  then show ?thesis
    by (cases snapshot) (simp_all add: alert_process_snapshot_def foldl_check_highest)
next
  case (Acknowledge level)
  then show ?thesis by (simp add: alert_acknowledge_def)
qed

lemma foldl_step_highest:
  "level_val (highest_level s) \<le> level_val (highest_level (foldl alert_call_step s cs))"
proof (induction cs arbitrary: s)
  case Nil
  then show ?case by simp
next
  case (Cons c cs)
  show ?case
    using alert_call_step_highest [of s c] Cons.IH [of "alert_call_step s c"] by simp
qed

subsection \<open>The invariant of the active set\<close>

lemma already_active_iff:
  "already_active s snap th \<longleftrightarrow>
     (engine_id snap, t_param_id th, t_level th) \<in> alert_key ` set (active_set s)"
  by (force simp: already_active_def alert_key_def list_ex_iff image_iff)

lemma create_alert_active_set:
  assumes "unat (active_count s) < EHMS_MAX_ACTIVE_ALERTS"
    and "length (alerts s) = EHMS_MAX_ACTIVE_ALERTS"
  shows "\<exists>al. active_set (create_alert s snap th) = active_set s @ [al]
           \<and> alert_key al = (engine_id snap, t_param_id th, t_level th)
           \<and> a_is_active al"
proof -
  let ?n = "unat (active_count s)"
  let ?s' = "create_alert s snap th"
  have n: "?n < length (alerts s)" using assms by simp
  have cnt: "unat (active_count ?s') = Suc ?n"
    using assms(1) by (rule create_alert_count)
  have len: "length (alerts ?s') = length (alerts s)" by (rule create_alert_length)
  have "take (Suc ?n) (alerts ?s') = take ?n (alerts ?s') @ [alerts ?s' ! ?n]"
    using n len by (simp add: take_Suc_conv_app_nth)
  then have "active_set ?s' = active_set s @ [alerts ?s' ! ?n]"
    by (simp add: active_set_def cnt create_alert_take)
  moreover have "alert_key (alerts ?s' ! ?n) = (engine_id snap, t_param_id th, t_level th)"
    using n by (simp add: create_alert_def Let_def alert_key_def)
  moreover have "a_is_active (alerts ?s' ! ?n)"
    using n by (simp add: create_alert_def Let_def)
  ultimately show ?thesis by blast
qed

lemma create_alert_wf:
  "alert_wf s \<Longrightarrow> unat (active_count s) < EHMS_MAX_ACTIVE_ALERTS
     \<Longrightarrow> alert_wf (create_alert s snap th)"
  by (simp add: alert_wf_def create_alert_length create_alert_count)

lemma check_threshold_wf: "alert_wf s \<Longrightarrow> alert_wf (check_threshold snap s th)"
  using check_threshold_cases [of snap s th] by (auto simp: create_alert_wf)

lemma check_threshold_unique:
  assumes "alert_wf s" and "unique_keys s"
  shows "unique_keys (check_threshold snap s th)"
proof -
  consider (same) "check_threshold snap s th = s"
    | (new) "check_threshold snap s th = create_alert s snap th"
        "\<not> already_active s snap th" "unat (active_count s) < EHMS_MAX_ACTIVE_ALERTS"
    using check_threshold_cases [of snap s th] by blast
  then show ?thesis
  proof cases
    case same
    then show ?thesis using assms by simp
  next
    case new
    from assms(1) have len: "length (alerts s) = EHMS_MAX_ACTIVE_ALERTS"
      by (simp add: alert_wf_def)
    from create_alert_active_set [OF new(3) len, of snap th]
    obtain al where al: "active_set (create_alert s snap th) = active_set s @ [al]"
      "alert_key al = (engine_id snap, t_param_id th, t_level th)" "a_is_active al"
      by blast
    from new(2) have "alert_key al \<notin> alert_key ` set (active_set s)"
      by (simp add: already_active_iff al(2))
    with assms(2) al(3) show ?thesis
      by (simp add: unique_keys_def new(1) al(1))
  qed
qed

lemma foldl_check_wf_unique:
  "alert_wf s \<Longrightarrow> unique_keys s \<Longrightarrow>
   alert_wf (foldl (check_threshold snap) s ths)
     \<and> unique_keys (foldl (check_threshold snap) s ths)"
  by (induction ths arbitrary: s) (simp_all add: check_threshold_wf check_threshold_unique)

lemma alert_call_step_wf_unique:
  assumes "alert_wf s" and "unique_keys s"
  shows "alert_wf (alert_call_step s c) \<and> unique_keys (alert_call_step s c)"
proof (cases c)
  case (Process snapshot)
  then show ?thesis
    using assms
    by (cases snapshot) (simp_all add: alert_process_snapshot_def foldl_check_wf_unique)
next
  case (Acknowledge level)
  then show ?thesis
    using assms by (simp add: alert_acknowledge_def alert_wf_def unique_keys_def active_set_def)
qed

lemma alert_init_wf_unique: "alert_wf (snd alert_init) \<and> unique_keys (snd alert_init)"
  by (simp add: alert_init_def alert_wf_def unique_keys_def active_set_def)

lemma foldl_step_wf_unique:
  "alert_wf s \<Longrightarrow> unique_keys s \<Longrightarrow>
   alert_wf (foldl alert_call_step s cs) \<and> unique_keys (foldl alert_call_step s cs)"
  by (induction cs arbitrary: s) (simp_all add: alert_call_step_wf_unique)

lemma alert_run_wf_unique: "alert_wf (alert_run calls) \<and> unique_keys (alert_run calls)"
  unfolding alert_run_def using alert_init_wf_unique by (simp add: foldl_step_wf_unique)

lemma distinct_map_filter_le1:
  "distinct (map f xs) \<Longrightarrow> length (filter (\<lambda>x. f x = k) xs) \<le> Suc 0"
proof (induction xs)
  case Nil
  then show ?case by simp
next
  case (Cons x xs)
  show ?case
  proof (cases "f x = k")
    case True
    from Cons.prems have "f x \<notin> f ` set xs" by simp
    with True have "\<forall>y\<in>set xs. f y \<noteq> k" by blast
    then have "filter (\<lambda>x. f x = k) xs = []" by (simp add: filter_empty_conv)
    with True show ?thesis by simp
  next
    case False
    with Cons show ?thesis by simp
  qed
qed

subsection \<open>Rows of parameters that are not Valid\<close>

lemma check_threshold_invalid:
  "p_status (parameters snap ! t_param_id th) \<noteq> EHMS_PARAM_VALID
     \<Longrightarrow> check_threshold snap s th = s"
  by (simp add: check_threshold_def Let_def)

lemma foldl_check_filter_valid:
  "foldl (check_threshold snap) s ths
     = foldl (check_threshold snap) s (filter (param_valid snap) ths)"
  by (induction ths arbitrary: s) (simp_all add: param_valid_def check_threshold_invalid)

lemma check_threshold_scrub:
  assumes "t_param_id th < length (parameters snap)"
  shows "check_threshold (scrub_invalid v snap) s th = check_threshold snap s th"
  using assms
  by (simp add: check_threshold_def scrub_invalid_def Let_def already_active_def
      create_alert_def exceeded_def)

lemma foldl_check_scrub:
  "\<forall>th\<in>set ths. t_param_id th < length (parameters snap) \<Longrightarrow>
   foldl (check_threshold (scrub_invalid v snap)) s ths = foldl (check_threshold snap) s ths"
  by (induction ths arbitrary: s) (simp_all add: check_threshold_scrub)

subsection \<open>A full active set, and the first exceedance\<close>

lemma check_threshold_full:
  "EHMS_MAX_ACTIVE_ALERTS \<le> unat (active_count s) \<Longrightarrow> check_threshold snap s th = s"
  by (simp add: check_threshold_def Let_def)

lemma foldl_check_full:
  "EHMS_MAX_ACTIVE_ALERTS \<le> unat (active_count s)
     \<Longrightarrow> foldl (check_threshold snap) s ths = s"
  by (induction ths) (simp_all add: check_threshold_full)

lemma active_set_subset_step:
  "set (active_set s) \<subseteq> set (active_set (check_threshold snap s th))"
proof -
  let ?s1 = "check_threshold snap s th"
  have "active_set s = take (unat (active_count s)) (alerts ?s1)"
    by (simp add: active_set_def check_threshold_take)
  moreover have "set (take (unat (active_count s)) (alerts ?s1))
      \<subseteq> set (take (unat (active_count ?s1)) (alerts ?s1))"
    by (rule set_take_subset_set_take) (rule check_threshold_count_mono)
  ultimately show ?thesis by (simp add: active_set_def)
qed

lemma raised_or_full_step:
  "raised_or_full s snap th \<Longrightarrow> raised_or_full (check_threshold snap s th') snap th"
  using active_set_subset_step [of s snap th'] check_threshold_count_mono [of s snap th']
  by (auto simp: raised_or_full_def already_active_iff)

lemma raised_or_full_foldl:
  "raised_or_full s snap th \<Longrightarrow> raised_or_full (foldl (check_threshold snap) s ths) snap th"
  by (induction ths arbitrary: s) (simp_all add: raised_or_full_step)

lemma check_threshold_raises:
  assumes "length (alerts s) = EHMS_MAX_ACTIVE_ALERTS"
    and "p_status (parameters snap ! t_param_id th) = EHMS_PARAM_VALID"
    and "exceeded (parameters snap ! t_param_id th) th"
  shows "raised_or_full (check_threshold snap s th) snap th"
proof (cases "\<not> already_active s snap th \<and> unat (active_count s) < EHMS_MAX_ACTIVE_ALERTS")
  case True
  then have eq: "check_threshold snap s th = create_alert s snap th"
    using assms by (simp add: check_threshold_def Let_def)
  from True have lt: "unat (active_count s) < EHMS_MAX_ACTIVE_ALERTS" by simp
  from create_alert_active_set [OF lt assms(1), of snap th]
  show ?thesis by (auto simp: raised_or_full_def already_active_iff eq)
next
  case False
  then have "check_threshold snap s th = s"
    by (auto simp: check_threshold_def Let_def)
  with False show ?thesis by (auto simp: raised_or_full_def)
qed

section \<open>Claims on the alert manager\<close>

text \<open>
  C3, as the specification states it: when \<open>alert_process_snapshot\<close> sees a Valid
  parameter that is not exceeded and an active, non-latched alert of that tuple, it clears
  the alert (stamps \<open>clear_time\<close>, removes it from the active set). The source has no
  such branch. Here the Caution alert of engine 2 on EGT, raised at 950.0, is still the
  only alert of the active set, active and with a zero \<open>clear_time\<close>, after three
  snapshots in which EGT is Valid at 600.0.
\<close>

theorem alert_not_cleared_counterexample:
  "param_valid egt_normal (s_thresholds ! 0)
   \<and> \<not> exceeded (parameters egt_normal ! EHMS_PARAM_EGT) (s_thresholds ! 0)
   \<and> already_active (alert_run [Process (Some egt_high)]) egt_normal (s_thresholds ! 0)
   \<and> \<not> a_is_latched (alerts (alert_run [Process (Some egt_high)]) ! 0)
   \<and> active_count (alert_run [Process (Some egt_high), Process (Some egt_normal),
        Process (Some egt_normal), Process (Some egt_normal)]) = 1
   \<and> alert_key (alerts (alert_run [Process (Some egt_high), Process (Some egt_normal),
        Process (Some egt_normal), Process (Some egt_normal)]) ! 0)
       = (1, EHMS_PARAM_EGT, EHMS_ALERT_CAUTION)
   \<and> a_is_active (alerts (alert_run [Process (Some egt_high), Process (Some egt_normal),
        Process (Some egt_normal), Process (Some egt_normal)]) ! 0)
   \<and> a_clear_time (alerts (alert_run [Process (Some egt_high), Process (Some egt_normal),
        Process (Some egt_normal), Process (Some egt_normal)]) ! 0) = zero_timestamp"
  by code_simp

text \<open>
  C3, amended: \<open>alert_process_snapshot\<close> never clears an alert. Every alert that is in
  the active set before the call, so also an active non-latched one whose Valid parameter
  is no longer exceeded, is in the active set after the call, in the same slot and with
  every field unchanged, \<open>clear_time\<close> included.
\<close>

theorem alerts_never_cleared:
  assumes "i < unat (active_count s)"
  shows "alerts (snd (alert_process_snapshot s snapshot)) ! i = alerts s ! i
     \<and> i < unat (active_count (snd (alert_process_snapshot s snapshot)))"
proof (cases snapshot)
  case None
  then show ?thesis using assms by (simp add: alert_process_snapshot_def)
next
  case (Some snap)
  let ?s' = "foldl (check_threshold snap) s s_thresholds"
  have "take (unat (active_count s)) (alerts ?s') = take (unat (active_count s)) (alerts s)"
    by (rule foldl_check_take)
  then have "take (unat (active_count s)) (alerts ?s') ! i
      = take (unat (active_count s)) (alerts s) ! i"
    by simp
  then have "alerts ?s' ! i = alerts s ! i" using assms by simp
  moreover have "i < unat (active_count ?s')"
    using assms foldl_check_count_mono [of s snap s_thresholds] by simp
  ultimately show ?thesis using Some by (simp add: alert_process_snapshot_def)
qed

theorem alerts_never_cleared_witness:
  "0 < unat (active_count (alert_run [Process (Some egt_high)]))
   \<and> alerts (snd (alert_process_snapshot (alert_run [Process (Some egt_high)])
        (Some egt_normal))) ! 0 = alerts (alert_run [Process (Some egt_high)]) ! 0
   \<and> 0 < unat (active_count (snd (alert_process_snapshot
        (alert_run [Process (Some egt_high)]) (Some egt_normal))))"
proof -
  have h: "0 < unat (active_count (alert_run [Process (Some egt_high)]))"
    by code_simp
  from alerts_never_cleared [OF h, of "Some egt_normal"] h show ?thesis by simp
qed

text \<open>
  C4, as the specification states it: no alert is allocated before the exceedance has
  been seen on 3 consecutive ticks. The source allocates at once: the first call after
  \<open>alert_init\<close>, with EGT of engine 2 at 950.0, leaves alert 1 in the active set.
\<close>

theorem no_debounce_counterexample:
  "active_count (alert_run [Process (Some egt_high)]) = 1
   \<and> alert_key (alerts (alert_run [Process (Some egt_high)]) ! 0)
       = (1, EHMS_PARAM_EGT, EHMS_ALERT_CAUTION)
   \<and> a_alert_id (alerts (alert_run [Process (Some egt_high)]) ! 0) = 1
   \<and> a_is_active (alerts (alert_run [Process (Some egt_high)]) ! 0)"
  by code_simp

text \<open>
  C4, amended: there is no debounce. One call of \<open>alert_process_snapshot\<close> is enough: for
  every row of the threshold table whose parameter is Valid and exceeds the threshold, the
  alert of that row and engine is in the active set when the call returns, unless the
  active set is full.
\<close>

theorem alert_raised_on_first_exceedance:
  assumes "length (alerts s) = EHMS_MAX_ACTIVE_ALERTS"
    and "th \<in> set s_thresholds"
    and "p_status (parameters snap ! t_param_id th) = EHMS_PARAM_VALID"
    and "exceeded (parameters snap ! t_param_id th) th"
  shows "already_active (snd (alert_process_snapshot s (Some snap))) snap th
     \<or> EHMS_MAX_ACTIVE_ALERTS \<le> unat (active_count (snd (alert_process_snapshot s (Some snap))))"
proof -
  from assms(2) obtain pre post where sp: "s_thresholds = pre @ th # post"
    by (auto dest: split_list)
  let ?s0 = "foldl (check_threshold snap) s pre"
  have "length (alerts ?s0) = EHMS_MAX_ACTIVE_ALERTS"
    using assms(1) by (simp add: foldl_check_length)
  then have "raised_or_full (check_threshold snap ?s0 th) snap th"
    using assms(3,4) by (rule check_threshold_raises)
  then have "raised_or_full
      (foldl (check_threshold snap) (check_threshold snap ?s0 th) post) snap th"
    by (rule raised_or_full_foldl)
  then show ?thesis
    by (simp add: alert_process_snapshot_def sp raised_or_full_def)
qed

theorem alert_raised_on_first_exceedance_witness:
  "length (alerts (snd alert_init)) = EHMS_MAX_ACTIVE_ALERTS
   \<and> s_thresholds ! 0 \<in> set s_thresholds
   \<and> p_status (parameters egt_high ! t_param_id (s_thresholds ! 0)) = EHMS_PARAM_VALID
   \<and> exceeded (parameters egt_high ! t_param_id (s_thresholds ! 0)) (s_thresholds ! 0)
   \<and> \<not> already_active (snd alert_init) egt_high (s_thresholds ! 0)
   \<and> unat (active_count (snd (alert_process_snapshot (snd alert_init) (Some egt_high))))
       < EHMS_MAX_ACTIVE_ALERTS
   \<and> already_active (snd (alert_process_snapshot (snd alert_init) (Some egt_high))) egt_high
         (s_thresholds ! 0)"
proof -
  have h1: "length (alerts (snd alert_init)) = EHMS_MAX_ACTIVE_ALERTS"
    by (simp add: alert_init_def)
  have h2: "s_thresholds ! 0 \<in> set s_thresholds"
    by (simp add: s_thresholds_def)
  have h3: "p_status (parameters egt_high ! t_param_id (s_thresholds ! 0)) = EHMS_PARAM_VALID"
    by code_simp
  have h4: "exceeded (parameters egt_high ! t_param_id (s_thresholds ! 0)) (s_thresholds ! 0)"
    by code_simp
  have before: "\<not> already_active (snd alert_init) egt_high (s_thresholds ! 0)"
    by code_simp
  have room: "unat (active_count (snd (alert_process_snapshot (snd alert_init) (Some egt_high))))
       < EHMS_MAX_ACTIVE_ALERTS"
    by code_simp
  from alert_raised_on_first_exceedance [OF h1 h2 h3 h4] room
  have "already_active (snd (alert_process_snapshot (snd alert_init) (Some egt_high))) egt_high
         (s_thresholds ! 0)"
    by simp
  with h1 h2 h3 h4 before room show ?thesis by blast
qed

text \<open>
  C5, as the specification states it: with 32 active alerts, a new distinct exceedance is
  dropped and the error \<open>QueueFull\<close> is returned. The source returns \<open>EHMS_OK\<close>, and
  \<open>ehms_result_t\<close> has no such code: after four engines with every parameter at 1000.0
  the set is full, N2 of engine 4 at 105.0 is a new exceedance, and the call returns
  \<open>EHMS_OK\<close>.
\<close>

theorem queue_full_not_reported_counterexample:
  "active_count saturated = 32
   \<and> param_valid n2_over (s_thresholds ! 11)
   \<and> exceeded (parameters n2_over ! EHMS_PARAM_N2) (s_thresholds ! 11)
   \<and> \<not> already_active saturated n2_over (s_thresholds ! 11)
   \<and> fst (alert_process_snapshot saturated (Some n2_over)) = EHMS_OK"
  by code_simp

text \<open>
  C5, amended: when the active set is full (\<open>active_count = 32\<close>), a call of
  \<open>alert_process_snapshot\<close> drops every new exceedance without reporting it: it returns
  \<open>EHMS_OK\<close> and leaves the whole alert state as it was, so \<open>active_count\<close> remains 32
  and the existing alerts are unchanged.
\<close>

theorem full_set_drops_silently:
  "active_count s = 32 \<Longrightarrow> alert_process_snapshot s (Some snap) = (EHMS_OK, s)"
  by (simp add: alert_process_snapshot_def foldl_check_full EHMS_MAX_ACTIVE_ALERTS_def)

theorem full_set_drops_silently_witness:
  "active_count saturated = 32
   \<and> alert_process_snapshot saturated (Some n2_over) = (EHMS_OK, saturated)"
proof -
  have h: "active_count saturated = 32" by code_simp
  from full_set_drops_silently [OF h, of n2_over] h show ?thesis by simp
qed

text \<open>
  C6, as the specification states it: \<open>acknowledge(level)\<close> clears the master indicator
  at \<open>level\<close> and above, so \<open>acknowledge(Caution)\<close> clears master-warning too. In the
  source the two branches exclude each other: after EGT of engine 1 at 1000.0 has set both
  indicators, acknowledging Caution leaves master-warning set.
\<close>

theorem acknowledge_caution_counterexample:
  "master_caution (alert_run [Process (Some egt_over)])
   \<and> master_warning (alert_run [Process (Some egt_over)])
   \<and> alert_is_master_warning
       (snd (alert_acknowledge (alert_run [Process (Some egt_over)]) EHMS_ALERT_CAUTION))
   \<and> \<not> alert_is_master_caution
       (snd (alert_acknowledge (alert_run [Process (Some egt_over)]) EHMS_ALERT_CAUTION))"
  by code_simp

text \<open>
  C6, amended: \<open>alert_acknowledge(level)\<close> returns \<open>EHMS_OK\<close> and clears the master
  indicator of \<open>level\<close> only: master-warning when \<open>level\<close> is Warning, master-caution
  when \<open>level\<close> is Caution, neither for a lower level; the other indicator keeps its
  value. It leaves the active alert set unchanged: the alerts with all their fields,
  \<open>active_count\<close>, the next alert id and the highest level.
\<close>

theorem acknowledge_own_indicator:
  "fst (alert_acknowledge s level) = EHMS_OK
   \<and> alerts (snd (alert_acknowledge s level)) = alerts s
   \<and> active_count (snd (alert_acknowledge s level)) = active_count s
   \<and> next_alert_id (snd (alert_acknowledge s level)) = next_alert_id s
   \<and> highest_level (snd (alert_acknowledge s level)) = highest_level s
   \<and> master_warning (snd (alert_acknowledge s level))
       = (master_warning s \<and> level \<noteq> EHMS_ALERT_WARNING)
   \<and> master_caution (snd (alert_acknowledge s level))
       = (master_caution s \<and> level \<noteq> EHMS_ALERT_CAUTION)"
  by (cases level) (simp_all add: alert_acknowledge_def)

theorem acknowledge_own_indicator_witness:
  "fst (alert_acknowledge saturated EHMS_ALERT_WARNING) = EHMS_OK
   \<and> alerts (snd (alert_acknowledge saturated EHMS_ALERT_WARNING)) = alerts saturated
   \<and> active_count (snd (alert_acknowledge saturated EHMS_ALERT_WARNING)) = 32
   \<and> \<not> master_warning (snd (alert_acknowledge saturated EHMS_ALERT_WARNING))
   \<and> master_caution (snd (alert_acknowledge saturated EHMS_ALERT_WARNING))"
proof -
  have h: "active_count saturated = 32 \<and> master_caution saturated" by code_simp
  from acknowledge_own_indicator [of saturated EHMS_ALERT_WARNING] h show ?thesis by simp
qed

text \<open>
  C7: in every state reached from \<open>alert_init\<close> by calls of \<open>alert_process_snapshot\<close>
  and \<open>alert_acknowledge\<close>, the active set holds at most one alert for each tuple of
  engine, parameter and level, and each alert in it is marked active.
\<close>

theorem active_alert_unique:
  "length (filter (\<lambda>al. alert_key al = (eng, par, lev)) (active_set (alert_run calls))) \<le> 1
   \<and> list_all a_is_active (active_set (alert_run calls))"
proof -
  have u: "unique_keys (alert_run calls)"
    using alert_run_wf_unique [of calls] by simp
  then have "distinct (map alert_key (active_set (alert_run calls)))"
    by (simp add: unique_keys_def)
  then have "length (filter (\<lambda>al. alert_key al = (eng, par, lev))
      (active_set (alert_run calls))) \<le> Suc 0"
    by (rule distinct_map_filter_le1)
  with u show ?thesis by (simp add: unique_keys_def)
qed

theorem active_alert_unique_witness:
  "length (filter (\<lambda>al. alert_key al = (1, EHMS_PARAM_EGT, EHMS_ALERT_CAUTION))
      (active_set (alert_run [Process (Some egt_high), Process (Some egt_high)]))) = 1
   \<and> list_all a_is_active
       (active_set (alert_run [Process (Some egt_high), Process (Some egt_high)]))"
proof -
  let ?xs = "filter (\<lambda>al. alert_key al = (1, EHMS_PARAM_EGT, EHMS_ALERT_CAUTION))
      (active_set (alert_run [Process (Some egt_high), Process (Some egt_high)]))"
  have ge: "1 \<le> length ?xs"
    by code_simp
  from active_alert_unique [of 1 EHMS_PARAM_EGT EHMS_ALERT_CAUTION
      "[Process (Some egt_high), Process (Some egt_high)]"]
  have le: "length ?xs \<le> 1"
    and act: "list_all a_is_active
       (active_set (alert_run [Process (Some egt_high), Process (Some egt_high)]))"
    by blast+
  from le ge have "length ?xs = 1" by (rule le_antisym)
  with act show ?thesis by blast
qed

text \<open>
  C9: a row of the threshold table whose parameter is not Valid (Stale, Failed,
  NoComputedData or Test) leaves the alert state as it is; a call of
  \<open>alert_process_snapshot\<close> does what the rows of the Valid parameters alone do; and its
  result does not depend on the engineering value of a parameter that is not Valid.
\<close>

theorem invalid_parameter_ignored:
  "(p_status (parameters snap ! t_param_id th) \<noteq> EHMS_PARAM_VALID
      \<longrightarrow> check_threshold snap s th = s)
   \<and> alert_process_snapshot s (Some snap)
       = (EHMS_OK, foldl (check_threshold snap) s (filter (param_valid snap) s_thresholds))
   \<and> (length (parameters snap) = EHMS_PARAM_COUNT \<longrightarrow>
       alert_process_snapshot s (Some (scrub_invalid v snap))
         = alert_process_snapshot s (Some snap))"
proof (intro conjI impI)
  assume "p_status (parameters snap ! t_param_id th) \<noteq> EHMS_PARAM_VALID"
  then show "check_threshold snap s th = s" by (rule check_threshold_invalid)
next
  show "alert_process_snapshot s (Some snap)
       = (EHMS_OK, foldl (check_threshold snap) s (filter (param_valid snap) s_thresholds))"
    using foldl_check_filter_valid [of snap s s_thresholds]
    by (simp add: alert_process_snapshot_def)
next
  assume len: "length (parameters snap) = EHMS_PARAM_COUNT"
  then have "\<forall>th\<in>set s_thresholds. t_param_id th < length (parameters snap)"
    by (simp add: s_thresholds_param_bound)
  then show "alert_process_snapshot s (Some (scrub_invalid v snap))
      = alert_process_snapshot s (Some snap)"
    by (simp add: alert_process_snapshot_def foldl_check_scrub)
qed

theorem invalid_parameter_ignored_witness:
  "p_status (parameters egt_stale ! t_param_id (s_thresholds ! 1)) \<noteq> EHMS_PARAM_VALID
   \<and> f32_ge (p_eng_value (parameters egt_stale ! t_param_id (s_thresholds ! 1)))
       (t_threshold (s_thresholds ! 1))
   \<and> length (parameters egt_stale) = EHMS_PARAM_COUNT
   \<and> check_threshold egt_stale (snd alert_init) (s_thresholds ! 1) = snd alert_init
   \<and> alert_process_snapshot (snd alert_init) (Some egt_stale) = (EHMS_OK, snd alert_init)
   \<and> alert_process_snapshot (snd alert_init) (Some (scrub_invalid 0 egt_stale))
       = alert_process_snapshot (snd alert_init) (Some egt_stale)"
proof -
  have h1: "p_status (parameters egt_stale ! t_param_id (s_thresholds ! 1)) \<noteq> EHMS_PARAM_VALID"
    by code_simp
  have h2: "length (parameters egt_stale) = EHMS_PARAM_COUNT"
    by (simp add: egt_stale_def probe_snapshot_def)
  have h3: "f32_ge (p_eng_value (parameters egt_stale ! t_param_id (s_thresholds ! 1)))
       (t_threshold (s_thresholds ! 1))"
    by code_simp
  have h4: "filter (param_valid egt_stale) s_thresholds = []"
    by code_simp
  from invalid_parameter_ignored [of egt_stale "s_thresholds ! 1" "snd alert_init" 0]
    h1 h2 h3 h4
  show ?thesis by simp
qed

text \<open>
  C10: along every sequence of calls of \<open>alert_process_snapshot\<close> and
  \<open>alert_acknowledge\<close> after \<open>alert_init\<close>, the level that \<open>alert_get_highest_level\<close>
  returns never decreases: what it returns after a prefix of the calls is at most what
  it returns after the whole sequence.
\<close>

theorem highest_level_monotone:
  "level_val (alert_get_highest_level (alert_run calls))
     \<le> level_val (alert_get_highest_level (alert_run (calls @ later)))"
  by (simp add: alert_run_def alert_get_highest_level_def foldl_step_highest)

theorem highest_level_monotone_witness:
  "alert_get_highest_level (alert_run [Process (Some egt_over)]) = EHMS_ALERT_WARNING
   \<and> level_val (alert_get_highest_level (alert_run [Process (Some egt_over)]))
     \<le> level_val (alert_get_highest_level (alert_run ([Process (Some egt_over)]
          @ [Acknowledge EHMS_ALERT_WARNING, Process (Some egt_normal)])))"
proof -
  have "alert_get_highest_level (alert_run [Process (Some egt_over)]) = EHMS_ALERT_WARNING"
    by code_simp
  with highest_level_monotone [of "[Process (Some egt_over)]"
      "[Acknowledge EHMS_ALERT_WARNING, Process (Some egt_normal)]"]
  show ?thesis by simp
qed

section \<open>Source statistics\<close>

lemma init_sources_length: "length (sources (snd (daq_init_sources zero_daq_state))) = EHMS_ARINC429_BUS_COUNT"
  by (simp add: daq_init_sources_def)

lemma init_sources_nth:
  "i < EHMS_ARINC429_BUS_COUNT \<Longrightarrow>
   is_active (sources (snd (daq_init_sources zero_daq_state)) ! i)
   \<and> failure_count (sources (snd (daq_init_sources zero_daq_state)) ! i) = 0"
  by (simp add: daq_init_sources_def)

lemma update_statistics_length:
  "length (sources (daq_update_statistics s b ok)) = length (sources s)"
  by (simp add: daq_update_statistics_def Let_def)

lemma update_statistics_other:
  "b' \<noteq> b \<Longrightarrow> source_of (daq_update_statistics s b' ok) b = source_of s b"
  by (simp add: daq_update_statistics_def Let_def source_of_def word_unat_eq_iff)

lemma update_statistics_failure:
  assumes "unat b < EHMS_ARINC429_BUS_COUNT" and "length (sources s) = EHMS_ARINC429_BUS_COUNT"
  shows "failure_count (source_of (daq_update_statistics s b False) b) = failure_count (source_of s b) + 1"
    and "is_active (source_of (daq_update_statistics s b False) b)
         \<longleftrightarrow> is_active (source_of s b) \<and> unat (failure_count (source_of s b) + 1) < DAQ_MAX_CONSECUTIVE_FAILURES"
    and "total_samples (source_of (daq_update_statistics s b False) b) = total_samples (source_of s b) + 1"
    and "error_samples (source_of (daq_update_statistics s b False) b) = error_samples (source_of s b) + 1"
  using assms by (auto simp: daq_update_statistics_def Let_def source_of_def)

lemma update_statistics_success:
  assumes "unat b < EHMS_ARINC429_BUS_COUNT" and "length (sources s) = EHMS_ARINC429_BUS_COUNT"
  shows "failure_count (source_of (daq_update_statistics s b True) b) = 0"
    and "is_active (source_of (daq_update_statistics s b True) b) = is_active (source_of s b)"
    and "total_samples (source_of (daq_update_statistics s b True) b) = total_samples (source_of s b) + 1"
    and "error_samples (source_of (daq_update_statistics s b True) b) = error_samples (source_of s b)"
  using assms by (auto simp: daq_update_statistics_def Let_def source_of_def)

lemma foldl_record_read_length:
  "length (sources (foldl record_read s rs)) = length (sources s)"
  by (induction rs arbitrary: s) (simp_all add: record_read_def update_statistics_length)

lemma daq_reads_length: "length (sources (daq_reads rs)) = EHMS_ARINC429_BUS_COUNT"
  by (simp add: daq_reads_def foldl_record_read_length init_sources_length)

lemma daq_reads_snoc: "daq_reads (rs @ [r]) = daq_update_statistics (daq_reads rs) (fst r) (snd r)"
  by (simp add: daq_reads_def record_read_def)

lemma daq_reads_Nil:
  "unat b < EHMS_ARINC429_BUS_COUNT \<Longrightarrow>
   is_active (source_of (daq_reads []) b) \<and> failure_count (source_of (daq_reads []) b) = 0"
  by (simp add: daq_reads_def source_of_def init_sources_nth)

lemma reached_limit_snoc:
  "reached_limit (rs @ [r]) bus \<longleftrightarrow>
     reached_limit rs bus
     \<or> DAQ_MAX_CONSECUTIVE_FAILURES \<le> unat (failure_count (source_of (daq_reads (rs @ [r])) bus))"
proof
  assume "reached_limit (rs @ [r]) bus"
  then obtain k where k: "k \<le> Suc (length rs)"
    "DAQ_MAX_CONSECUTIVE_FAILURES \<le> unat (failure_count (source_of (daq_reads (take k (rs @ [r]))) bus))"
    by (auto simp: reached_limit_def)
  show "reached_limit rs bus
     \<or> DAQ_MAX_CONSECUTIVE_FAILURES \<le> unat (failure_count (source_of (daq_reads (rs @ [r])) bus))"
  proof (cases "k \<le> length rs")
    case True
    with k(2) show ?thesis by (auto simp: reached_limit_def)
  next
    case False
    with k(1) have "k = Suc (length rs)" by simp
    with k(2) show ?thesis by simp
  qed
next
  assume "reached_limit rs bus
     \<or> DAQ_MAX_CONSECUTIVE_FAILURES \<le> unat (failure_count (source_of (daq_reads (rs @ [r])) bus))"
  then show "reached_limit (rs @ [r]) bus"
  proof
    assume "reached_limit rs bus"
    then obtain k where "k \<le> length rs"
      "DAQ_MAX_CONSECUTIVE_FAILURES \<le> unat (failure_count (source_of (daq_reads (take k rs)) bus))"
      by (auto simp: reached_limit_def)
    then show ?thesis
      unfolding reached_limit_def by (intro exI [of _ k]) simp
  next
    assume "DAQ_MAX_CONSECUTIVE_FAILURES \<le> unat (failure_count (source_of (daq_reads (rs @ [r])) bus))"
    then show ?thesis
      unfolding reached_limit_def by (intro exI [of _ "Suc (length rs)"]) simp
  qed
qed

lemma reached_limit_last:
  "DAQ_MAX_CONSECUTIVE_FAILURES \<le> unat (failure_count (source_of (daq_reads rs) bus))
     \<Longrightarrow> reached_limit rs bus"
  unfolding reached_limit_def by (intro exI [of _ "length rs"]) simp

lemma inactive_iff_reached:
  assumes "unat bus < EHMS_ARINC429_BUS_COUNT"
  shows "\<not> is_active (source_of (daq_reads rs) bus) \<longleftrightarrow> reached_limit rs bus"
proof (induction rs rule: rev_induct)
  case Nil
  show ?case
    using daq_reads_Nil [OF assms]
    by (simp add: reached_limit_def DAQ_MAX_CONSECUTIVE_FAILURES_def)
next
  case (snoc r rs)
  obtain b ok where r: "r = (b, ok)" by (cases r)
  note len = daq_reads_length [of rs]
  show ?case
  proof (cases "b = bus")
    case False
    then have same: "source_of (daq_reads (rs @ [r])) bus = source_of (daq_reads rs) bus"
      by (simp add: daq_reads_snoc r update_statistics_other)
    show ?thesis
      using snoc.IH reached_limit_last [of rs bus]
      by (auto simp: reached_limit_snoc same)
  next
    case True
    show ?thesis
    proof (cases ok)
      case True
      with \<open>b = bus\<close> show ?thesis
        using snoc.IH update_statistics_success(1,2) [OF assms len]
        by (simp add: reached_limit_snoc daq_reads_snoc r DAQ_MAX_CONSECUTIVE_FAILURES_def)
    next
      case False
      with \<open>b = bus\<close> show ?thesis
        using snoc.IH update_statistics_failure(1,2) [OF assms len]
        by (auto simp: reached_limit_snoc daq_reads_snoc r)
    qed
  qed
qed

lemma replicate_snoc: "replicate (Suc n) x = replicate n x @ [x]"
  by (simp add: replicate_append_same)

lemma failures_after_reset:
  assumes "unat bus < EHMS_ARINC429_BUS_COUNT"
    and "failure_count (source_of (daq_reads rs) bus) = 0"
  shows "failure_count (source_of (daq_reads (rs @ replicate n (bus, False))) bus) = word_of_nat n
     \<and> (is_active (source_of (daq_reads (rs @ replicate n (bus, False))) bus)
          \<longleftrightarrow> is_active (source_of (daq_reads rs) bus) \<and> n < DAQ_MAX_CONSECUTIVE_FAILURES)"
proof (induction n)
  case 0
  show ?case using assms(2) by (simp add: DAQ_MAX_CONSECUTIVE_FAILURES_def)
next
  case (Suc n)
  let ?rs = "rs @ replicate n (bus, False)"
  have eq: "rs @ replicate (Suc n) (bus, False) = ?rs @ [(bus, False)]"
    by (simp only: replicate_snoc append_assoc)
  note len = daq_reads_length [of ?rs]
  have five: "n < 5 \<Longrightarrow> unat (word_of_nat n + 1 :: u32) = Suc n"
    by (simp add: unat_word_ariths unat_of_nat)
  have step: "daq_reads (?rs @ [(bus, False)]) = daq_update_statistics (daq_reads ?rs) bus False"
    by (simp only: daq_reads_snoc fst_conv snd_conv)
  have fc: "failure_count (source_of (daq_reads (?rs @ [(bus, False)])) bus) = word_of_nat (Suc n)"
    unfolding step using Suc.IH update_statistics_failure(1) [OF assms(1) len] by simp
  have "is_active (source_of (daq_reads (?rs @ [(bus, False)])) bus)
      \<longleftrightarrow> is_active (source_of (daq_reads rs) bus) \<and> Suc n < DAQ_MAX_CONSECUTIVE_FAILURES"
    unfolding step using Suc.IH update_statistics_failure(2) [OF assms(1) len] five
    by (auto simp: DAQ_MAX_CONSECUTIVE_FAILURES_def)
  with fc show ?case by (simp only: eq)
qed

text \<open>
  C8: for every bus, along every sequence of reads recorded after \<open>daq_init_sources\<close>,
  the source is inactive exactly when its counter of consecutive failures has reached 5
  after some prefix of the reads. From the start, and after any successful read of a source
  that is still active, the source stays active through 4 consecutive failing reads and is
  inactive from the 5th on. A successful read resets the counter to 0 and leaves the active
  flag as it is, so it does not re-activate a source.
\<close>

theorem source_deactivation:
  assumes "unat bus < EHMS_ARINC429_BUS_COUNT"
  shows "(\<not> is_active (source_of (daq_reads rs) bus)
            \<longleftrightarrow> (\<exists>k. k \<le> length rs \<and> DAQ_MAX_CONSECUTIVE_FAILURES
                   \<le> unat (failure_count (source_of (daq_reads (take k rs)) bus))))
     \<and> (is_active (source_of (daq_reads (replicate n (bus, False))) bus)
            \<longleftrightarrow> n < DAQ_MAX_CONSECUTIVE_FAILURES)
     \<and> (is_active (source_of (daq_reads (rs @ (bus, True) # replicate n (bus, False))) bus)
            \<longleftrightarrow> is_active (source_of (daq_reads rs) bus) \<and> n < DAQ_MAX_CONSECUTIVE_FAILURES)
     \<and> failure_count (source_of (daq_reads (rs @ [(bus, True)])) bus) = 0
     \<and> is_active (source_of (daq_reads (rs @ [(bus, True)])) bus)
         = is_active (source_of (daq_reads rs) bus)"
proof -
  note len = daq_reads_length [of rs]
  have reset: "failure_count (source_of (daq_reads (rs @ [(bus, True)])) bus) = 0"
    and keep: "is_active (source_of (daq_reads (rs @ [(bus, True)])) bus)
         = is_active (source_of (daq_reads rs) bus)"
    using update_statistics_success(1,2) [OF assms len] by (simp_all add: daq_reads_snoc)
  have fresh: "is_active (source_of (daq_reads (replicate n (bus, False))) bus)
            \<longleftrightarrow> n < DAQ_MAX_CONSECUTIVE_FAILURES"
    using failures_after_reset [OF assms, of "[]" n] daq_reads_Nil [OF assms] by simp
  have "is_active (source_of (daq_reads ((rs @ [(bus, True)]) @ replicate n (bus, False))) bus)
      \<longleftrightarrow> is_active (source_of (daq_reads (rs @ [(bus, True)])) bus) \<and> n < DAQ_MAX_CONSECUTIVE_FAILURES"
    using failures_after_reset [OF assms reset, of n] by blast
  then have after: "is_active (source_of (daq_reads (rs @ (bus, True) # replicate n (bus, False))) bus)
            \<longleftrightarrow> is_active (source_of (daq_reads rs) bus) \<and> n < DAQ_MAX_CONSECUTIVE_FAILURES"
    by (simp add: keep)
  from inactive_iff_reached [OF assms, of rs] fresh after reset keep
  show ?thesis by (simp add: reached_limit_def)
qed

theorem source_deactivation_witness:
  "unat (1 :: u8) < EHMS_ARINC429_BUS_COUNT
   \<and> is_active (source_of (daq_reads (replicate 4 (1, False))) 1)
   \<and> \<not> is_active (source_of (daq_reads (replicate 5 (1, False))) 1)
   \<and> failure_count (source_of (daq_reads (replicate 5 (1, False) @ [(1, True)])) 1) = 0
   \<and> \<not> is_active (source_of (daq_reads (replicate 5 (1, False) @ [(1, True)])) 1)
   \<and> is_active (source_of (daq_reads ([(0, False)] @ (1, True) # replicate 4 (1, False))) 1)"
proof -
  have h: "unat (1 :: u8) < EHMS_ARINC429_BUS_COUNT"
    by (simp add: EHMS_ARINC429_BUS_COUNT_def)
  have a0: "is_active (source_of (daq_reads [(0, False)]) 1)"
    using source_deactivation [OF h, of "[]" 0] update_statistics_other [of 0 1 "daq_reads []" False]
    by (simp add: daq_reads_snoc [of "[]", simplified] DAQ_MAX_CONSECUTIVE_FAILURES_def)
  from source_deactivation [OF h, of "replicate 5 (1, False)" 4]
    source_deactivation [OF h, of "replicate 5 (1, False)" 5]
    source_deactivation [OF h, of "[(0, False)]" 4] h a0
  show ?thesis by (simp add: DAQ_MAX_CONSECUTIVE_FAILURES_def)
qed

section \<open>CRC\<close>

lemma xor_cancel_right: "(a :: u32) XOR p = b XOR p \<Longrightarrow> a = b"
proof -
  assume "a XOR p = b XOR p"
  then have "(a XOR p) XOR p = (b XOR p) XOR p" by simp
  then show "a = b" by (simp add: xor.assoc)
qed

lemma and_one_odd: "(c :: u32) AND 1 \<noteq> 0 \<longleftrightarrow> bit c 0"
  by (simp add: and_one_eq bit_0 odd_iff_mod_2_eq_one)

lemma crc_bit_top: "bit (crc_bit c) 31 \<longleftrightarrow> bit c 0"
proof -
  have "\<not> bit c 32" using bit_imp_le_length [of c 32] by auto
  then show ?thesis
    by (simp add: crc_bit_def and_one_odd DAQ_CRC32_POLYNOMIAL_def bit_simps)
qed

lemma crc_bit_inj: "crc_bit c = crc_bit c' \<Longrightarrow> c = c'"
proof -
  assume eq: "crc_bit c = crc_bit c'"
  then have b0: "bit c 0 = bit c' 0"
    using crc_bit_top [of c] crc_bit_top [of c'] by simp
  from eq b0 have d: "drop_bit 1 c = drop_bit 1 c'"
    by (auto simp: crc_bit_def and_one_odd dest: xor_cancel_right)
  show "c = c'"
  proof (rule bit_word_eqI)
    fix n assume "n < LENGTH(32)"
    show "bit c n = bit c' n"
    proof (cases n)
      case 0
      with b0 show ?thesis by simp
    next
      case (Suc m)
      from d have "bit (drop_bit 1 c) m = bit (drop_bit 1 c') m" by simp
      with Suc show ?thesis by (simp add: bit_drop_bit_eq)
    qed
  qed
qed

lemma crc_byte_unfold:
  "crc_byte c b = crc_bit (crc_bit (crc_bit (crc_bit (crc_bit (crc_bit (crc_bit (crc_bit
     (c XOR ucast b))))))))"
  by (simp add: crc_byte_def eval_nat_numeral)

lemma crc_bit_numeral:
  "crc_bit (numeral n) =
     (if (numeral n :: u32) AND 1 \<noteq> 0 then drop_bit 1 (numeral n) XOR 0xEDB88320
      else drop_bit 1 (numeral n))"
  by (simp add: crc_bit_def DAQ_CRC32_POLYNOMIAL_def)

lemma crc_bit_zero: "crc_bit 0 = 0"
  by (simp add: crc_bit_def)

text \<open>The check value of CRC-32: the CRC of the ASCII digits 1 to 9.\<close>

lemma crc32_check_value:
  "daq_calculate_crc32 [0x31, 0x32, 0x33, 0x34, 0x35, 0x36, 0x37, 0x38, 0x39] = 0xCBF43926"
  by (simp add: daq_calculate_crc32_def crc_byte_unfold crc_bit_numeral crc_bit_zero)

text \<open>
  With its 48 parameters the payload has 1368 bytes, the size of the structure less the
  four bytes of \<open>crc32\<close>.
\<close>

lemma parameter_bytes_length: "length (parameter_bytes p) = 28"
  by (simp add: parameter_bytes_def le32_def le16_def timestamp_bytes_def)

lemma snapshot_payload_length:
  "length (snapshot_payload snap) = 24 + 28 * length (parameters snap)"
proof -
  have "length (concat (map parameter_bytes ps)) = 28 * length ps" for ps
    by (induction ps) (simp_all add: parameter_bytes_length)
  then show ?thesis
    by (simp add: snapshot_payload_def payload_rest_def le32_def le16_def timestamp_bytes_def)
qed

lemma crc_byte_inj: "crc_byte c b = crc_byte c' b \<Longrightarrow> c = c'"
proof -
  assume "crc_byte c b = crc_byte c' b"
  then have "c XOR ucast b = c' XOR ucast b"
    unfolding crc_byte_unfold by (auto dest!: crc_bit_inj)
  then show "c = c'" by (rule xor_cancel_right)
qed

lemma foldl_crc_byte_inj:
  "foldl crc_byte c bs = foldl crc_byte c' bs \<Longrightarrow> c = c'"
  by (induction bs arbitrary: c c') (auto dest: crc_byte_inj)

lemma crc32_same_suffix:
  "daq_calculate_crc32 (pre @ suf) = daq_calculate_crc32 (pre' @ suf)
     \<longleftrightarrow> foldl crc_byte 0xFFFFFFFF pre = foldl crc_byte 0xFFFFFFFF pre'"
  by (auto simp: daq_calculate_crc32_def dest: foldl_crc_byte_inj)


section \<open>What the reads of one engine leave alone\<close>

lemma same_frame_refl: "same_frame eng s s"
  by (simp add: same_frame_def)

lemma same_frame_trans:
  "same_frame eng s s1 \<Longrightarrow> same_frame eng s1 s2 \<Longrightarrow> same_frame eng s s2"
  by (simp add: same_frame_def)

lemma update_statistics_frame: "same_frame eng s (daq_update_statistics s b ok)"
  by (simp add: same_frame_def daq_update_statistics_def Let_def)

lemma update_parameter_frame: "same_frame eng s (update_parameter s eng p f)"
proof (cases "eng < length (engine_data s)")
  case True
  then show ?thesis by (simp add: same_frame_def update_parameter_def)
next
  case False
  then show ?thesis by (simp add: same_frame_def update_parameter_def list_update_beyond)
qed

lemma read_parameter_frame:
  "same_frame eng (snd rs) (snd (daq_read_parameter fp env bus eng rs p))"
proof -
  obtain r d where rd: "arinc429_read env bus (arinc_label (s_param_config ! p)) = (r, d)"
    by (cases "arinc429_read env bus (arinc_label (s_param_config ! p))")
  show ?thesis
    unfolding daq_read_parameter_def rd
    by (auto intro: same_frame_refl update_statistics_frame
        same_frame_trans [OF update_parameter_frame update_statistics_frame])
qed

lemma foldl_read_parameter_frame:
  "same_frame eng (snd rs) (snd (foldl (daq_read_parameter fp env bus eng) rs ps))"
proof (induction ps arbitrary: rs)
  case Nil
  show ?case by (simp add: same_frame_refl)
next
  case (Cons p ps)
  show ?case
    using same_frame_trans [OF read_parameter_frame Cons.IH] by simp
qed

lemma read_arinc429_frame:
  "same_frame eng s (snd (daq_read_arinc429_data fp env s bus eng))"
  unfolding daq_read_arinc429_data_def
  using foldl_read_parameter_frame [of eng "(EHMS_OK, s)"] by simp

lemma read_1553_frame: "same_frame eng s (snd (daq_read_1553_data fp env s eng))"
proof -
  obtain r msg where rm: "milstd1553_read_subaddress env 5 = (r, msg)"
    by (cases "milstd1553_read_subaddress env 5")
  show ?thesis
    unfolding daq_read_1553_data_def rm
    by (auto intro: same_frame_refl same_frame_trans [OF update_parameter_frame update_parameter_frame])
qed

lemma read_sources_frame: "same_frame eng s (snd (daq_read_sources fp env s eng))"
  unfolding daq_read_sources_def Let_def
  by (auto intro: read_arinc429_frame
      same_frame_trans [OF read_arinc429_frame read_arinc429_frame]
      same_frame_trans [OF read_arinc429_frame read_1553_frame]
      same_frame_trans [OF same_frame_trans [OF read_arinc429_frame read_arinc429_frame] read_1553_frame])

section \<open>One engine, one cycle\<close>

lemma acquire_engine_frame:
  "is_initialized (daq_acquire_engine fp env s eng) = is_initialized s
   \<and> current_time_ms (daq_acquire_engine fp env s eng) = current_time_ms s
   \<and> length (engine_data (daq_acquire_engine fp env s eng)) = length (engine_data s)
   \<and> (k \<noteq> eng \<longrightarrow> engine_data (daq_acquire_engine fp env s eng) ! k = engine_data s ! k)"
  using read_sources_frame [of eng s fp env]
  by (simp add: daq_acquire_engine_def Let_def same_frame_def)

lemma acquire_engine_slot:
  assumes "eng < length (engine_data s)"
  shows "\<exists>X. engine_data (daq_acquire_engine fp env s eng) ! eng
           = X\<lparr>crc32 := daq_calculate_crc32 (snapshot_payload X),
               sample_time := system_get_timestamp env\<rparr>
         \<and> engine_id X = engine_id (engine_data s ! eng)
         \<and> sample_time X = sample_time (engine_data s ! eng)"
proof -
  let ?s1 = "snd (daq_read_sources fp env s eng)"
  let ?X = "(engine_data ?s1 ! eng)
            \<lparr>parameters :=
               map (\<lambda>param. snd (daq_check_staleness env ?s1
                                   (snd (daq_validate_parameter env param))))
                 (parameters (engine_data ?s1 ! eng))\<rparr>"
  have fr: "same_frame eng s ?s1" by (rule read_sources_frame)
  with assms have len: "eng < length (engine_data ?s1)" by (simp add: same_frame_def)
  have "engine_data (daq_acquire_engine fp env s eng) ! eng
      = ?X\<lparr>crc32 := daq_calculate_crc32 (snapshot_payload ?X),
             sample_time := system_get_timestamp env\<rparr>"
    using len by (simp add: daq_acquire_engine_def Let_def)
  moreover have "engine_id ?X = engine_id (engine_data s ! eng)"
    "sample_time ?X = sample_time (engine_data s ! eng)"
    using fr by (simp_all add: same_frame_def)
  ultimately show ?thesis by blast
qed

lemma foldl_acquire_frame:
  "is_initialized (foldl (daq_acquire_engine fp env) s ks) = is_initialized s
   \<and> current_time_ms (foldl (daq_acquire_engine fp env) s ks) = current_time_ms s
   \<and> length (engine_data (foldl (daq_acquire_engine fp env) s ks)) = length (engine_data s)
   \<and> (eng \<notin> set ks \<longrightarrow> engine_data (foldl (daq_acquire_engine fp env) s ks) ! eng = engine_data s ! eng)"
proof (induction ks arbitrary: s)
  case Nil
  show ?case by simp
next
  case (Cons k ks)
  show ?case
    using Cons.IH [of "daq_acquire_engine fp env s k"] acquire_engine_frame [of fp env s k eng]
    by auto
qed

lemma upt_split: "eng < n \<Longrightarrow> [0..<n] = [0..<eng] @ eng # [Suc eng..<n]"
  by (metis le_add1 less_imp_add_positive upt_add_eq_append upt_conv_Cons plus_nat.add_0)

lemma cycle_slot:
  assumes "is_initialized s" and "eng < config_get_engine_count env"
    and "eng < length (engine_data s)"
  shows "\<exists>X. engine_data (snd (daq_execute_cycle fp env s)) ! eng
           = X\<lparr>crc32 := daq_calculate_crc32 (snapshot_payload X),
               sample_time := system_get_timestamp env\<rparr>
         \<and> engine_id X = engine_id (engine_data s ! eng)
         \<and> sample_time X = sample_time (engine_data s ! eng)"
proof -
  let ?s0 = "s\<lparr>current_time_ms := system_get_time_ms env, cycle_count := cycle_count s + 1\<rparr>"
  let ?f = "daq_acquire_engine fp env"
  let ?sa = "foldl ?f ?s0 [0..<eng]"
  have before: "engine_data ?sa ! eng = engine_data s ! eng"
    "length (engine_data ?sa) = length (engine_data s)"
    using foldl_acquire_frame [of fp env ?s0 "[0..<eng]" eng] by simp_all
  from acquire_engine_slot [of eng ?sa fp env] before assms(3)
  obtain X where X: "engine_data (?f ?sa eng) ! eng
           = X\<lparr>crc32 := daq_calculate_crc32 (snapshot_payload X),
               sample_time := system_get_timestamp env\<rparr>"
    "engine_id X = engine_id (engine_data s ! eng)"
    "sample_time X = sample_time (engine_data s ! eng)"
    by auto
  have "snd (daq_execute_cycle fp env s) = foldl ?f (?f ?sa eng) [Suc eng..<config_get_engine_count env]"
    using assms(1,2) by (simp add: daq_execute_cycle_def upt_split [of eng])
  moreover have "engine_data (foldl ?f (?f ?sa eng) [Suc eng..<config_get_engine_count env]) ! eng
      = engine_data (?f ?sa eng) ! eng"
    using foldl_acquire_frame [of fp env "?f ?sa eng" "[Suc eng..<config_get_engine_count env]" eng]
    by simp
  ultimately show ?thesis using X by auto
qed

lemma cycle_initialized:
  "is_initialized s \<Longrightarrow> is_initialized (snd (daq_execute_cycle fp env s))
     \<and> fst (daq_execute_cycle fp env s) = EHMS_OK"
  using foldl_acquire_frame [of fp env
      "s\<lparr>current_time_ms := system_get_time_ms env, cycle_count := cycle_count s + 1\<rparr>"]
  by (simp add: daq_execute_cycle_def)

lemma payload_restamp:
  "snapshot_payload (X\<lparr>crc32 := c, sample_time := t\<rparr>)
     = (le32 (word_of_nat (engine_id X)) @ timestamp_bytes t) @ payload_rest X"
  "snapshot_payload X
     = (le32 (word_of_nat (engine_id X)) @ timestamp_bytes (sample_time X)) @ payload_rest X"
  by (simp_all add: snapshot_payload_def payload_rest_def)

text \<open>
  What the reader finds after a cycle: the stored CRC is the CRC of the snapshot with the
  sample time of the cycle before.
\<close>

lemma get_snapshot_after_cycle:
  assumes "is_initialized s" and "eng < config_get_engine_count env"
    and "eng < EHMS_MAX_ENGINES" and "length (engine_data s) = EHMS_MAX_ENGINES"
  shows "fst (daq_get_engine_snapshot (snd (daq_execute_cycle fp env s)) eng (Some out))
     = (if foldl crc_byte 0xFFFFFFFF
             (le32 (word_of_nat (engine_id (engine_data s ! eng)))
              @ timestamp_bytes (system_get_timestamp env))
           = foldl crc_byte 0xFFFFFFFF
             (le32 (word_of_nat (engine_id (engine_data s ! eng)))
              @ timestamp_bytes (sample_time (engine_data s ! eng)))
        then EHMS_OK else EHMS_ERROR_CRC)"
proof -
  from assms(3,4) have "eng < length (engine_data s)" by simp
  from cycle_slot [OF assms(1,2) this, of fp]
  obtain X where X: "engine_data (snd (daq_execute_cycle fp env s)) ! eng
           = X\<lparr>crc32 := daq_calculate_crc32 (snapshot_payload X),
               sample_time := system_get_timestamp env\<rparr>"
    "engine_id X = engine_id (engine_data s ! eng)"
    "sample_time X = sample_time (engine_data s ! eng)"
    by blast
  have init: "is_initialized (snd (daq_execute_cycle fp env s))"
    using cycle_initialized [OF assms(1)] by simp
  let ?ts = "system_get_timestamp env"
  let ?stored = "X\<lparr>crc32 := daq_calculate_crc32 (snapshot_payload X), sample_time := ?ts\<rparr>"
  have crc: "daq_calculate_crc32 (snapshot_payload ?stored) = daq_calculate_crc32 (snapshot_payload X)
      \<longleftrightarrow> foldl crc_byte 0xFFFFFFFF (le32 (word_of_nat (engine_id X)) @ timestamp_bytes ?ts)
          = foldl crc_byte 0xFFFFFFFF
              (le32 (word_of_nat (engine_id X)) @ timestamp_bytes (sample_time X))"
    by (simp only: payload_restamp(1) payload_restamp(2) [of X] crc32_same_suffix)
  have "fst (daq_get_engine_snapshot (snd (daq_execute_cycle fp env s)) eng (Some out))
      = (if daq_calculate_crc32 (snapshot_payload ?stored) = daq_calculate_crc32 (snapshot_payload X)
         then EHMS_OK else EHMS_ERROR_CRC)"
    using assms(3) init
    by (simp add: daq_get_engine_snapshot_def X(1) EHMS_ENGINE_COUNT_def EHMS_MAX_ENGINES_def)
  then show ?thesis
    unfolding crc X(2) X(3) .
qed


lemma cycle_length:
  "length (engine_data (snd (daq_execute_cycle fp env s))) = length (engine_data s)"
  using foldl_acquire_frame [of fp env
      "s\<lparr>current_time_ms := system_get_time_ms env, cycle_count := cycle_count s + 1\<rparr>"]
  by (simp add: daq_execute_cycle_def)

section \<open>The scenarios of the acquisition module\<close>

lemma power_on_eq:
  "power_on = (snd (daq_init_sources zero_daq_state))
     \<lparr>is_initialized := True, state := EHMS_STATE_INIT\<rparr>"
  by (simp add: power_on_def daq_init_def Let_def test_config_def daq_validate_config_def
      nominal_env_def EHMS_MAX_SAMPLE_RATE_HZ_def EHMS_MAX_ENGINES_def
      EHMS_ARINC429_BUS_COUNT_def upt_rec)

lemma power_on_facts:
  "is_initialized power_on"
  "length (engine_data power_on) = EHMS_MAX_ENGINES"
  "current_time_ms power_on = 0"
  "eng < EHMS_MAX_ENGINES \<Longrightarrow> engine_data power_on ! eng = zero_snapshot"
  "length (sources power_on) = EHMS_ARINC429_BUS_COUNT"
  by (simp_all add: power_on_eq daq_init_sources_def zero_daq_state_def)

lemmas crc_eval = crc_byte_unfold crc_bit_numeral crc_bit_zero le32_def le16_def
  timestamp_bytes_def tick_time_def zero_timestamp_def

lemma crc_head_zero:
  "foldl crc_byte 0xFFFFFFFF (le32 (word_of_nat 0) @ timestamp_bytes zero_timestamp) = 0x2E448638"
  by (simp add: crc_eval)

lemma crc_head_tick1:
  "foldl crc_byte 0xFFFFFFFF (le32 (word_of_nat 0) @ timestamp_bytes (tick_time 1)) = 0x361D95CC"
  by (simp add: crc_eval)


lemma crc_head_tick2:
  "foldl crc_byte 0xFFFFFFFF (le32 (word_of_nat 0) @ timestamp_bytes (tick_time 2)) = 0xE25CAA13"
  by (simp add: crc_eval)

text \<open>
  C1, on the first two ticks after \<open>daq_init\<close>, with every bus answering:
  \<open>daq_execute_cycle\<close> returns \<open>EHMS_OK\<close>, and the call of
  \<open>daq_get_engine_snapshot\<close> for engine 1 that follows it returns \<open>EHMS_ERROR_CRC\<close>.
  The cycle computes the CRC and then overwrites \<open>sample_time\<close>, which lies in the
  bytes that the CRC covers. This holds for every float arithmetic \<open>fp\<close>.
\<close>

theorem snapshot_crc_stale_after_cycle:
  "fst (daq_execute_cycle fp nominal_env power_on) = EHMS_OK
   \<and> crc32 (engine_data (snd (daq_execute_cycle fp nominal_env power_on)) ! 0)
       \<noteq> daq_calculate_crc32
           (snapshot_payload (engine_data (snd (daq_execute_cycle fp nominal_env power_on)) ! 0))
   \<and> fst (daq_get_engine_snapshot (snd (daq_execute_cycle fp nominal_env power_on)) 0
           (Some zero_snapshot)) = EHMS_ERROR_CRC
   \<and> fst (daq_execute_cycle fp next_env (snd (daq_execute_cycle fp nominal_env power_on)))
       = EHMS_OK
   \<and> fst (daq_get_engine_snapshot
           (snd (daq_execute_cycle fp next_env (snd (daq_execute_cycle fp nominal_env power_on))))
           0 (Some zero_snapshot)) = EHMS_ERROR_CRC"
proof -
  let ?s1 = "snd (daq_execute_cycle fp nominal_env power_on)"
  have e0: "(0::nat) < EHMS_MAX_ENGINES" by (simp add: EHMS_MAX_ENGINES_def)
  have n1: "0 < config_get_engine_count nominal_env"
    "system_get_timestamp nominal_env = tick_time 1"
    by (simp_all add: nominal_env_def)
  have n2: "0 < config_get_engine_count next_env" "system_get_timestamp next_env = tick_time 2"
    by (simp_all add: next_env_def nominal_env_def)
  have slot0: "engine_id (engine_data power_on ! 0) = 0"
    "sample_time (engine_data power_on ! 0) = zero_timestamp"
    using power_on_facts(4) [OF e0] by (simp_all add: zero_snapshot_def)
  have first: "fst (daq_get_engine_snapshot ?s1 0 (Some zero_snapshot)) = EHMS_ERROR_CRC"
    using get_snapshot_after_cycle [OF power_on_facts(1) n1(1) e0 power_on_facts(2),
        of fp zero_snapshot]
    by (simp only: slot0 n1(2) crc_head_zero crc_head_tick1) simp
  have ok1: "is_initialized ?s1" "fst (daq_execute_cycle fp nominal_env power_on) = EHMS_OK"
    using cycle_initialized [OF power_on_facts(1), of fp nominal_env] by simp_all
  have stored: "crc32 (engine_data ?s1 ! 0)
      \<noteq> daq_calculate_crc32 (snapshot_payload (engine_data ?s1 ! 0))"
  proof
    assume "crc32 (engine_data ?s1 ! 0)
      = daq_calculate_crc32 (snapshot_payload (engine_data ?s1 ! 0))"
    then have "fst (daq_get_engine_snapshot ?s1 0 (Some zero_snapshot)) = EHMS_OK"
      using ok1(1) by (simp add: daq_get_engine_snapshot_def EHMS_ENGINE_COUNT_def)
    with first show False by simp
  qed
  have len1: "length (engine_data ?s1) = EHMS_MAX_ENGINES"
    by (simp add: cycle_length power_on_facts(2))
  from cycle_slot [OF power_on_facts(1) n1(1), of fp] power_on_facts(2) e0
  obtain X where "engine_data ?s1 ! 0
      = X\<lparr>crc32 := daq_calculate_crc32 (snapshot_payload X),
          sample_time := system_get_timestamp nominal_env\<rparr>"
    "engine_id X = engine_id (engine_data power_on ! 0)"
    by auto
  then have slot1: "engine_id (engine_data ?s1 ! 0) = 0"
    "sample_time (engine_data ?s1 ! 0) = tick_time 1"
    by (simp_all add: slot0 n1(2))
  have second: "fst (daq_get_engine_snapshot (snd (daq_execute_cycle fp next_env ?s1)) 0
      (Some zero_snapshot)) = EHMS_ERROR_CRC"
    using get_snapshot_after_cycle [OF ok1(1) n2(1) e0 len1, of fp zero_snapshot]
    by (simp only: slot1 n2(2) crc_head_tick1 crc_head_tick2) simp
  have ok2: "fst (daq_execute_cycle fp next_env ?s1) = EHMS_OK"
    using cycle_initialized [OF ok1(1), of fp next_env] by simp
  from first stored second ok1(2) ok2 show ?thesis by simp
qed

section \<open>The backup bus\<close>

lemma param_config_rows:
  "length s_param_config = EHMS_PARAM_COUNT"
  "bus_primary (s_param_config ! 0) = 0"
  "bus_backup (s_param_config ! 0) = 1"
  "bus_primary (s_param_config ! EHMS_PARAM_N1) = 0"
  "bus_backup (s_param_config ! EHMS_PARAM_N1) = 1"
  "arinc_label (s_param_config ! EHMS_PARAM_N1) = 200"
  by (simp_all add: s_param_config_def mk_config_def EHMS_PARAM_COUNT_def EHMS_PARAM_N1_def)

lemma no_row_on_backup:
  assumes "p < EHMS_PARAM_COUNT"
  shows "bus_primary (s_param_config ! p) \<noteq> 1"
proof -
  have "\<forall>c\<in>set s_param_config. bus_primary c \<noteq> 1"
    by (simp add: s_param_config_def mk_config_def)
  moreover have "s_param_config ! p \<in> set s_param_config"
    using assms by (simp add: param_config_rows(1))
  ultimately show ?thesis by blast
qed

lemma last_row_on_primary: "bus_primary (s_param_config ! 47) = 0"
  by (simp add: s_param_config_def mk_config_def EHMS_PARAM_COUNT_def nth_append)

lemma read_parameter_skip:
  "bus_primary (s_param_config ! p) \<noteq> bus \<Longrightarrow> daq_read_parameter fp env bus eng rs p = rs"
  by (simp add: daq_read_parameter_def)

lemma foldl_read_parameter_skip:
  "\<forall>p\<in>set ps. bus_primary (s_param_config ! p) \<noteq> bus \<Longrightarrow>
   foldl (daq_read_parameter fp env bus eng) rs ps = rs"
  by (induction ps) (simp_all add: read_parameter_skip)

text \<open>
  No row of the table has bus 1 as its primary bus, and \<open>daq_read_arinc429_data\<close>
  selects its rows by \<open>bus_primary\<close>: the read of the backup bus reads nothing, whatever
  the state and the environment.
\<close>

lemma backup_read_noop:
  "daq_read_arinc429_data fp env s (bus_backup (s_param_config ! 0)) eng = (EHMS_OK, s)"
  unfolding daq_read_arinc429_data_def param_config_rows(3)
  by (rule foldl_read_parameter_skip) (simp add: no_row_on_backup)

lemma update_parameter_sources: "sources (update_parameter s eng p f) = sources s"
  by (simp add: update_parameter_def)

lemma read_parameter_other_source:
  assumes "b \<noteq> bus"
  shows "source_of (snd (daq_read_parameter fp env bus eng rs p)) b = source_of (snd rs) b"
proof -
  obtain r d where rd: "arinc429_read env bus (arinc_label (s_param_config ! p)) = (r, d)"
    by (cases "arinc429_read env bus (arinc_label (s_param_config ! p))")
  have "source_of (daq_update_statistics s' bus ok) b = source_of s' b" for s' ok
    using assms
    by (simp add: daq_update_statistics_def Let_def source_of_def word_unat_eq_iff)
  then show ?thesis
    unfolding daq_read_parameter_def rd
    by (simp add: source_of_def update_parameter_sources)
qed

lemma foldl_read_parameter_other_source:
  "b \<noteq> bus \<Longrightarrow>
   source_of (snd (foldl (daq_read_parameter fp env bus eng) rs ps)) b = source_of (snd rs) b"
  by (induction ps arbitrary: rs) (simp_all add: read_parameter_other_source)

lemma read_1553_sources: "sources (snd (daq_read_1553_data fp env s eng)) = sources s"
proof -
  obtain r msg where rm: "milstd1553_read_subaddress env 5 = (r, msg)"
    by (cases "milstd1553_read_subaddress env 5")
  show ?thesis
    unfolding daq_read_1553_data_def rm by (simp add: update_parameter_sources)
qed

lemma read_sources_backup_source:
  "source_of (snd (daq_read_sources fp env s eng)) 1 = source_of s 1"
proof -
  have prim: "source_of (snd (daq_read_arinc429_data fp env s 0 eng)) 1 = source_of s 1"
    unfolding daq_read_arinc429_data_def
    using foldl_read_parameter_other_source [of 1 0 fp env eng "(EHMS_OK, s)"] by simp
  show ?thesis
    unfolding daq_read_sources_def Let_def backup_read_noop param_config_rows(2)
    using prim by (simp add: source_of_def read_1553_sources)
qed

lemma acquire_engine_backup_source:
  "source_of (daq_acquire_engine fp env s eng) 1 = source_of s 1"
  using read_sources_backup_source [of fp env s eng]
  by (simp add: daq_acquire_engine_def Let_def source_of_def)

lemma cycle_backup_source:
  "source_of (snd (daq_execute_cycle fp env s)) 1 = source_of s 1"
proof -
  have "source_of (foldl (daq_acquire_engine fp env) s' ks) 1 = source_of s' 1" for s' ks
    by (induction ks arbitrary: s') (simp_all add: acquire_engine_backup_source)
  then show ?thesis
    by (simp add: daq_execute_cycle_def) (simp add: source_of_def)
qed


lemma update_statistics_engine_data: "engine_data (daq_update_statistics s b ok) = engine_data s"
  by (simp add: daq_update_statistics_def Let_def)

lemma read_parameter_failed:
  assumes "\<forall>l. fst (arinc429_read env bus l) \<noteq> EHMS_OK"
  shows "engine_data (snd (daq_read_parameter fp env bus eng rs p)) = engine_data (snd rs)"
    and "bus_primary (s_param_config ! p) = bus
           \<Longrightarrow> fst (daq_read_parameter fp env bus eng rs p) \<noteq> EHMS_OK"
proof -
  obtain r d where rd: "arinc429_read env bus (arinc_label (s_param_config ! p)) = (r, d)"
    by (cases "arinc429_read env bus (arinc_label (s_param_config ! p))")
  with assms have r: "r \<noteq> EHMS_OK"
    by (metis fst_conv)
  show "engine_data (snd (daq_read_parameter fp env bus eng rs p)) = engine_data (snd rs)"
    unfolding daq_read_parameter_def rd using r by (simp add: update_statistics_engine_data)
  show "bus_primary (s_param_config ! p) = bus
           \<Longrightarrow> fst (daq_read_parameter fp env bus eng rs p) \<noteq> EHMS_OK"
    unfolding daq_read_parameter_def rd using r by simp
qed

lemma foldl_read_parameter_failed:
  "\<forall>l. fst (arinc429_read env bus l) \<noteq> EHMS_OK \<Longrightarrow>
   engine_data (snd (foldl (daq_read_parameter fp env bus eng) rs ps)) = engine_data (snd rs)"
  by (induction ps arbitrary: rs) (simp_all add: read_parameter_failed(1))

lemma read_arinc429_failed:
  assumes "\<forall>l. fst (arinc429_read env 0 l) \<noteq> EHMS_OK"
  shows "engine_data (snd (daq_read_arinc429_data fp env s 0 eng)) = engine_data s"
    and "fst (daq_read_arinc429_data fp env s 0 eng) \<noteq> EHMS_OK"
proof -
  show "engine_data (snd (daq_read_arinc429_data fp env s 0 eng)) = engine_data s"
    unfolding daq_read_arinc429_data_def
    using foldl_read_parameter_failed [OF assms, of fp eng "(EHMS_OK, s)"] by simp
  have "(48::nat) = Suc 47" by simp
  then have "[0..<EHMS_PARAM_COUNT] = [0..<47] @ [47]"
    by (simp only: EHMS_PARAM_COUNT_def upt_Suc) simp
  then have "daq_read_arinc429_data fp env s 0 eng
      = daq_read_parameter fp env 0 eng
          (foldl (daq_read_parameter fp env 0 eng) (EHMS_OK, s) [0..<47]) 47"
    by (simp add: daq_read_arinc429_data_def)
  then show "fst (daq_read_arinc429_data fp env s 0 eng) \<noteq> EHMS_OK"
    using read_parameter_failed(2) [OF assms last_row_on_primary] by simp
qed

lemma read_1553_parameter:
  assumes "p \<noteq> EHMS_PARAM_VIB_FAN" and "p \<noteq> EHMS_PARAM_VIB_CORE"
  shows "parameters (engine_data (snd (daq_read_1553_data fp env s eng)) ! eng) ! p
     = parameters (engine_data s ! eng) ! p"
proof -
  obtain r msg where rm: "milstd1553_read_subaddress env 5 = (r, msg)"
    by (cases "milstd1553_read_subaddress env 5")
  show ?thesis
  proof (cases "eng < length (engine_data s)")
    case True
    then show ?thesis
      unfolding daq_read_1553_data_def rm using assms
      by (simp add: update_parameter_def)
  next
    case False
    then show ?thesis
      unfolding daq_read_1553_data_def rm
      by (simp add: update_parameter_def list_update_beyond)
  qed
qed

lemma failed_primary_parameter:
  assumes "\<forall>l. fst (arinc429_read env 0 l) \<noteq> EHMS_OK"
    and "p \<noteq> EHMS_PARAM_VIB_FAN" and "p \<noteq> EHMS_PARAM_VIB_CORE"
  shows "parameters (engine_data (snd (daq_read_sources fp env s eng)) ! eng) ! p
     = parameters (engine_data s ! eng) ! p"
proof -
  let ?prim = "daq_read_arinc429_data fp env s 0 eng"
  have sources: "daq_read_sources fp env s eng = daq_read_1553_data fp env (snd ?prim) eng"
    using read_arinc429_failed(2) [OF assms(1), of fp s eng]
    by (simp add: daq_read_sources_def Let_def param_config_rows(2) backup_read_noop)
  show ?thesis
    unfolding sources
    by (simp add: read_1553_parameter [OF assms(2,3)] read_arinc429_failed(1) [OF assms(1)])
qed

lemma acquire_engine_parameter:
  assumes "eng < length (engine_data s)" and "p < length (parameters (engine_data s ! eng))"
  shows "parameters (engine_data (daq_acquire_engine fp env s eng) ! eng) ! p
     = snd (daq_check_staleness env (snd (daq_read_sources fp env s eng))
         (snd (daq_validate_parameter env
            (parameters (engine_data (snd (daq_read_sources fp env s eng)) ! eng) ! p))))"
proof -
  let ?s1 = "snd (daq_read_sources fp env s eng)"
  have fr: "same_frame eng s ?s1" by (rule read_sources_frame)
  with assms have "eng < length (engine_data ?s1)"
    "p < length (parameters (engine_data ?s1 ! eng))"
    by (simp_all add: same_frame_def)
  then show ?thesis
    by (simp add: daq_acquire_engine_def Let_def)
qed

text \<open>
  C2, at a tick on which every read of bus 0 reports a hardware error and bus 1 would
  answer: what \<open>daq_get_parameter\<close> returns for N1 of engine 1 is not a Valid sample
  from the backup bus 1 with the raw value 850, it is the sample that \<open>daq_init\<close> left
  there, demoted to Stale, with \<open>source_bus\<close> 0; and no read of bus 1 has been counted.
\<close>

theorem backup_bus_never_read:
  "fst (arinc429_read failover_env (bus_primary (s_param_config ! EHMS_PARAM_N1))
          (arinc_label (s_param_config ! EHMS_PARAM_N1))) = EHMS_ERROR_HARDWARE
   \<and> arinc429_read failover_env (bus_backup (s_param_config ! EHMS_PARAM_N1))
          (arinc_label (s_param_config ! EHMS_PARAM_N1)) = (EHMS_OK, 850)
   \<and> bus_backup (s_param_config ! EHMS_PARAM_N1) = 1
   \<and> fst (daq_execute_cycle fp failover_env power_on) = EHMS_OK
   \<and> daq_get_parameter (snd (daq_execute_cycle fp failover_env power_on)) 0 EHMS_PARAM_N1
        (Some zero_parameter)
       = (EHMS_OK, Some (zero_parameter\<lparr>p_status := EHMS_PARAM_STALE\<rparr>))
   \<and> p_source_bus (zero_parameter\<lparr>p_status := EHMS_PARAM_STALE\<rparr>) = 0
   \<and> total_samples (source_of (snd (daq_execute_cycle fp failover_env power_on)) 1) = 0
   \<and> error_samples (source_of (snd (daq_execute_cycle fp failover_env power_on)) 1) = 0"
proof -
  let ?env = failover_env
  let ?s0 = "power_on\<lparr>current_time_ms := system_get_time_ms ?env,
      cycle_count := cycle_count power_on + 1\<rparr>"
  let ?s1 = "daq_acquire_engine fp ?env ?s0 0"
  let ?r = "snd (daq_read_sources fp ?env ?s0 0)"
  have e0: "(0::nat) < EHMS_MAX_ENGINES" by (simp add: EHMS_MAX_ENGINES_def)
  have env: "config_get_engine_count ?env = 2" "system_get_time_ms ?env = 43200010"
    "timestamp_to_ms ?env = ms_of_day" "param_db_get_limits ?env = (\<lambda>p. (EHMS_ERROR, 0, 0))"
    by (simp_all add: failover_env_def nominal_env_def)
  have fail: "\<forall>l. fst (arinc429_read ?env 0 l) \<noteq> EHMS_OK"
    by (simp add: failover_env_def)
  have slot: "engine_data power_on ! 0 = zero_snapshot"
    "length (engine_data power_on) = EHMS_MAX_ENGINES"
    using power_on_facts(2) power_on_facts(4) [OF e0] by simp_all
  have len0: "0 < length (engine_data ?s0)"
    using slot(2) e0 by simp
  have plen: "EHMS_PARAM_N1 < length (parameters (engine_data ?s0 ! 0))"
    by (simp add: slot(1) zero_snapshot_def EHMS_PARAM_COUNT_def EHMS_PARAM_N1_def)
  have kept: "parameters (engine_data ?r ! 0) ! EHMS_PARAM_N1 = zero_parameter"
    using failed_primary_parameter [OF fail, of EHMS_PARAM_N1 fp ?s0 0]
    by (simp add: param_ids slot(1) zero_snapshot_def EHMS_PARAM_COUNT_def)
  have now: "current_time_ms ?r = 43200010"
    using read_sources_frame [of 0 ?s0 fp ?env] by (simp add: same_frame_def env(2))
  have swept: "snd (daq_check_staleness ?env ?r (snd (daq_validate_parameter ?env zero_parameter)))
      = zero_parameter\<lparr>p_status := EHMS_PARAM_STALE\<rparr>"
    by (simp add: daq_validate_parameter_def daq_check_staleness_def env(3,4) now
        zero_parameter_def zero_timestamp_def ms_of_day_def DAQ_STALE_TIMEOUT_MS_def)
  have after0: "parameters (engine_data ?s1 ! 0) ! EHMS_PARAM_N1
      = zero_parameter\<lparr>p_status := EHMS_PARAM_STALE\<rparr>"
    using acquire_engine_parameter [OF len0 plen, of fp ?env]
    by (simp only: kept swept)
  have cyc: "snd (daq_execute_cycle fp ?env power_on) = daq_acquire_engine fp ?env ?s1 1"
    "fst (daq_execute_cycle fp ?env power_on) = EHMS_OK"
    by (simp_all add: daq_execute_cycle_def power_on_facts(1) env(1) upt_rec)
  have after1: "engine_data (daq_acquire_engine fp ?env ?s1 1) ! 0 = engine_data ?s1 ! 0"
    using acquire_engine_frame [of fp ?env ?s1 1 0] by simp
  have init2: "is_initialized (snd (daq_execute_cycle fp ?env power_on))"
    using cycle_initialized [OF power_on_facts(1), of fp ?env] by simp
  have p2: "parameters (engine_data (snd (daq_execute_cycle fp ?env power_on)) ! 0) ! EHMS_PARAM_N1
      = zero_parameter\<lparr>p_status := EHMS_PARAM_STALE\<rparr>"
    unfolding cyc(1) after1 by (rule after0)
  have got: "daq_get_parameter (snd (daq_execute_cycle fp ?env power_on)) 0 EHMS_PARAM_N1
        (Some zero_parameter)
       = (EHMS_OK, Some (zero_parameter\<lparr>p_status := EHMS_PARAM_STALE\<rparr>))"
    using init2 p2
    by (simp add: daq_get_parameter_def EHMS_ENGINE_COUNT_def EHMS_PARAM_COUNT_def
        EHMS_PARAM_N1_def)
  have src: "source_of (snd (daq_execute_cycle fp ?env power_on)) 1 = source_of power_on 1"
    by (rule cycle_backup_source)
  have src0: "total_samples (source_of power_on 1) = 0" "error_samples (source_of power_on 1) = 0"
    by (simp_all add: source_of_def power_on_eq daq_init_sources_def EHMS_ARINC429_BUS_COUNT_def)
  have reads: "fst (arinc429_read ?env (bus_primary (s_param_config ! EHMS_PARAM_N1))
          (arinc_label (s_param_config ! EHMS_PARAM_N1))) = EHMS_ERROR_HARDWARE"
    "arinc429_read ?env (bus_backup (s_param_config ! EHMS_PARAM_N1))
          (arinc_label (s_param_config ! EHMS_PARAM_N1)) = (EHMS_OK, 850)"
    by (simp_all add: param_config_rows failover_env_def)
  from reads param_config_rows(5) cyc(2) got src src0 show ?thesis
    by (simp add: zero_parameter_def)
qed

end
